theory Spec2Isabelle
  imports Main
begin

section \<open>Python values, exceptions and strings\<close>

text \<open>
  The program is \<^verbatim>\<open>main.py\<close>: the class \<^verbatim>\<open>YouTubeScraperInterface\<close> and the function
  \<^verbatim>\<open>main\<close>. A Python \<^verbatim>\<open>str\<close> is a \<^typ>\<open>string\<close>; a \<^typ>\<open>char\<close> stands for the code point
  of the same number (code points below 256).

  An exception is kept with its class as far as the handlers of the program tell classes
  apart: \<^verbatim>\<open>except Exception\<close> catches the subclasses of \<^verbatim>\<open>Exception\<close> only, so
  \<^verbatim>\<open>KeyboardInterrupt\<close>, \<^verbatim>\<open>SystemExit\<close> and the other direct subclasses of
  \<^verbatim>\<open>BaseException\<close> (\<^verbatim>\<open>asyncio.CancelledError\<close>) pass through it.
\<close>

datatype pyexc =
    PyException string
  | KeyboardInterrupt
  | SystemExit int
  | PyBaseException string

fun is_Exception :: "pyexc \<Rightarrow> bool" where
  "is_Exception (PyException m) = True"
| "is_Exception KeyboardInterrupt = False"
| "is_Exception (SystemExit c) = False"
| "is_Exception (PyBaseException m) = False"

text \<open>The values a session hands back: JSON-like data.\<close>

datatype pyval =
    PNone
  | PBool bool
  | PInt int
  | PStr string
  | PList "pyval list"
  | PDict "(string \<times> pyval) list"

text \<open>Python's truth value of an object, as \<^verbatim>\<open>if x:\<close> reads it.\<close>

fun truthy :: "pyval \<Rightarrow> bool" where
  "truthy PNone = False"
| "truthy (PBool b) = b"
| "truthy (PInt i) = (i \<noteq> 0)"
| "truthy (PStr s) = (s \<noteq> [])"
| "truthy (PList xs) = (xs \<noteq> [])"
| "truthy (PDict kvs) = (kvs \<noteq> [])"

text \<open>
  \<^verbatim>\<open>data.get('error')\<close>: on a dict the value under the key, or \<^verbatim>\<open>None\<close> when the key is
  absent; any other value has no method \<^verbatim>\<open>get\<close> and the call raises \<^verbatim>\<open>AttributeError\<close>.
\<close>

fun py_get :: "pyval \<Rightarrow> string \<Rightarrow> pyexc + pyval" where
  "py_get (PDict kvs) k = (case map_of kvs k of None \<Rightarrow> Inr PNone | Some v \<Rightarrow> Inr v)"
| "py_get v k = Inl (PyException ''AttributeError'')"

text \<open>
  The test of \<^verbatim>\<open>scrape_single_url\<close> on a record, \<^verbatim>\<open>if data.get('error'):\<close>, where it can be
  evaluated: the record is a dict whose \<^verbatim>\<open>error\<close> entry is true in Python's sense.
\<close>

definition error_bearing :: "pyval \<Rightarrow> bool" where
  "error_bearing data = (case py_get data ''error'' of Inl e \<Rightarrow> False | Inr v \<Rightarrow> truthy v)"

text \<open>
  \<^verbatim>\<open>str.strip()\<close> removes leading and trailing whitespace; these are the code points below
  256 for which \<^verbatim>\<open>str.isspace\<close> holds.
\<close>

definition is_space :: "char \<Rightarrow> bool" where
  "is_space c = (c \<in> set [CHR 0x09, CHR 0x0A, CHR 0x0B, CHR 0x0C, CHR 0x0D,
                           CHR 0x1C, CHR 0x1D, CHR 0x1E, CHR 0x1F, CHR 0x20,
                           CHR 0x85, CHR 0xA0])"

definition strip :: "string \<Rightarrow> string" where
  "strip s = rev (dropWhile is_space (rev (dropWhile is_space s)))"

text \<open>\<^verbatim>\<open>s.startswith(p)\<close>.\<close>

definition startswith :: "string \<Rightarrow> string \<Rightarrow> bool" where
  "startswith s p = (take (length p) s = p)"

text \<open>\<^verbatim>\<open>s.split(',')\<close>, for a separator of one character: never an empty list.\<close>

fun split_on :: "char \<Rightarrow> string \<Rightarrow> string list" where
  "split_on c [] = [[]]"
| "split_on c (x # xs) =
     (if x = c then [] # split_on c xs
      else (case split_on c xs of [] \<Rightarrow> [[x]] | y # ys \<Rightarrow> (x # y) # ys))"

section \<open>The collaborators and the trace of a run\<close>

text \<open>
  What the program prints, one constructor per \<^verbatim>\<open>print\<close> statement (the texts hold
  characters outside ASCII), with the values the text is formatted from.
\<close>

datatype message =
    MsgScrapingSingle string
  | MsgFailedExtract pyval
  | MsgSavedSingle string
  | MsgErrorUrl pyexc
  | MsgScrapingMany nat
  | MsgSavedMany nat string
  | MsgErrorUrls pyexc
  | MsgFileNotFound string
  | MsgNoValidUrls string
  | MsgFound nat string
  | MsgErrorReadingFile pyexc
  | MsgBanner
  | MsgRule
  | MsgMenu nat
  | MsgGoodbye
  | MsgInvalidChoice
  | MsgHelp
  | MsgStartingInteractive
  | MsgInterrupted
  | MsgUnexpected pyexc

text \<open>The prompts of \<^verbatim>\<open>input\<close>.\<close>

datatype prompt = AskChoice | AskUrl | AskUrls | AskFile | AskOutput

text \<open>
  Every effect of the program is an event of the trace, with its outcome: a print, a read
  from the terminal, and the calls on \<^verbatim>\<open>AdvancedYouTubeExtractor\<close>, the session. A session
  is named by a number, given at its construction.
\<close>

datatype event =
    Print message
  | Input prompt "pyexc + string"
  | Construct bool bool "pyexc + nat"
  | Start nat "pyexc option"
  | Extract nat string "pyexc + pyval"
  | Save nat "pyval list" string "pyexc option"
  | BatchCall nat "string list" string "pyexc option"
  | Stop nat "pyexc option"

text \<open>What \<^verbatim>\<open>open(path).readlines()\<close> meets at a path that exists.\<close>

datatype fs_node = TextFile "string list" | Unreadable pyexc

text \<open>
  The world outside the program: for each call, its outcome, which may depend on
  everything that happened before (the trace so far). \<^verbatim>\<open>None\<close> is a call that completes,
  \<^verbatim>\<open>Some e\<close> and \<^verbatim>\<open>Inl e\<close> one that raises \<^verbatim>\<open>e\<close>. \<^verbatim>\<open>print\<close> is taken never to raise.
\<close>

record env =
  construct_res :: "event list \<Rightarrow> bool \<Rightarrow> bool \<Rightarrow> pyexc option"
  start_res :: "event list \<Rightarrow> nat \<Rightarrow> pyexc option"
  extract_res :: "event list \<Rightarrow> nat \<Rightarrow> string \<Rightarrow> pyexc + pyval"
  save_res :: "event list \<Rightarrow> nat \<Rightarrow> pyval list \<Rightarrow> string \<Rightarrow> pyexc option"
  batch_res :: "event list \<Rightarrow> nat \<Rightarrow> string list \<Rightarrow> string \<Rightarrow> pyexc option"
  stop_res :: "event list \<Rightarrow> nat \<Rightarrow> pyexc option"
  file_at :: "event list \<Rightarrow> string \<Rightarrow> fs_node option"
  input_res :: "event list \<Rightarrow> prompt \<Rightarrow> pyexc + string"

record world =
  log :: "event list"
  created :: nat

definition emit :: "event \<Rightarrow> world \<Rightarrow> world" where
  "emit ev w = w\<lparr>log := log w @ [ev]\<rparr>"

text \<open>The events a call added: the trace after it, without the trace before it.\<close>

definition new_events :: "world \<Rightarrow> world \<Rightarrow> event list" where
  "new_events w w' = drop (length (log w)) (log w')"

definition construct :: "env \<Rightarrow> bool \<Rightarrow> bool \<Rightarrow> world \<Rightarrow> (pyexc + nat) \<times> world" where
  "construct E h a w =
     (case construct_res E (log w) h a of
        Some e \<Rightarrow> (Inl e, emit (Construct h a (Inl e)) w)
      | None \<Rightarrow>
          (Inr (created w),
           emit (Construct h a (Inr (created w))) (w\<lparr>created := Suc (created w)\<rparr>)))"

definition start :: "env \<Rightarrow> nat \<Rightarrow> world \<Rightarrow> pyexc option \<times> world" where
  "start E x w = (let r = start_res E (log w) x in (r, emit (Start x r) w))"

definition extract_youtube_data :: "env \<Rightarrow> nat \<Rightarrow> string \<Rightarrow> world \<Rightarrow> (pyexc + pyval) \<times> world" where
  "extract_youtube_data E x url w =
     (let r = extract_res E (log w) x url in (r, emit (Extract x url r) w))"

definition save_clean_final_output ::
  "env \<Rightarrow> nat \<Rightarrow> pyval list \<Rightarrow> string \<Rightarrow> world \<Rightarrow> pyexc option \<times> world" where
  "save_clean_final_output E x rs out w =
     (let r = save_res E (log w) x rs out in (r, emit (Save x rs out r) w))"

definition stop :: "env \<Rightarrow> nat \<Rightarrow> world \<Rightarrow> pyexc option \<times> world" where
  "stop E x w = (let r = stop_res E (log w) x in (r, emit (Stop x r) w))"

section \<open>YouTubeScraperInterface\<close>

record iface =
  headless :: bool
  enable_anti_detection :: bool
  extractor :: "nat option"

text \<open>\<^verbatim>\<open>__init__\<close>.\<close>

definition init :: "bool \<Rightarrow> bool \<Rightarrow> iface" where
  "init h a = \<lparr>headless = h, enable_anti_detection = a, extractor = None\<rparr>"

text \<open>
  The result of a method: \<^verbatim>\<open>Inr b\<close> when it returns \<^verbatim>\<open>b\<close>, \<^verbatim>\<open>Inl e\<close> when \<^verbatim>\<open>e\<close> leaves it;
  with the object and the world as the call left them.
\<close>

type_synonym 'a outcome = "(pyexc + 'a) \<times> iface \<times> world"

text \<open>
  \<^verbatim>\<open>except Exception as e: print(...); return False\<close>: an exception of the class takes the
  handler, anything else (a returned value, another exception) goes on unchanged.
\<close>

definition except_Exception :: "(pyexc \<Rightarrow> message) \<Rightarrow> bool outcome \<Rightarrow> bool outcome" where
  "except_Exception msg res =
     (case res of
        (Inl e, s, w) \<Rightarrow>
          if is_Exception e then (Inr False, s, emit (Print (msg e)) w) else (Inl e, s, w)
      | (Inr b, s, w) \<Rightarrow> (Inr b, s, w))"

text \<open>
  \<^verbatim>\<open>finally: if self.extractor: await self.extractor.stop()\<close>: runs on every way out of the
  \<^verbatim>\<open>try\<close>; an exception of \<^verbatim>\<open>stop\<close> replaces the pending result.
\<close>

definition finally_stop :: "env \<Rightarrow> bool outcome \<Rightarrow> bool outcome" where
  "finally_stop E res =
     (case res of
        (r, s, w) \<Rightarrow>
          (case extractor s of
             None \<Rightarrow> (r, s, w)
           | Some x \<Rightarrow>
               (case stop E x w of
                  (Some e, w') \<Rightarrow> (Inl e, s, w')
                | (None, w') \<Rightarrow> (r, s, w'))))"

text \<open>The \<^verbatim>\<open>try\<close> block of \<^verbatim>\<open>scrape_single_url\<close>.\<close>

definition scrape_single_try :: "env \<Rightarrow> string \<Rightarrow> string \<Rightarrow> iface \<Rightarrow> world \<Rightarrow> bool outcome" where
  "scrape_single_try E url output_file s w =
     (case construct E (headless s) (enable_anti_detection s) w of
        (Inl e, w1) \<Rightarrow> (Inl e, s, w1)
      | (Inr x, w1) \<Rightarrow>
          (let s1 = s\<lparr>extractor := Some x\<rparr> in
           case start E x w1 of
             (Some e, w2) \<Rightarrow> (Inl e, s1, w2)
           | (None, w2) \<Rightarrow>
               (case extract_youtube_data E x url w2 of
                  (Inl e, w3) \<Rightarrow> (Inl e, s1, w3)
                | (Inr data, w3) \<Rightarrow>
                    (case py_get data ''error'' of
                       Inl e \<Rightarrow> (Inl e, s1, w3)
                     | Inr err \<Rightarrow>
                         if truthy err
                         then (Inr False, s1, emit (Print (MsgFailedExtract err)) w3)
                         else
                           (case save_clean_final_output E x [data] output_file w3 of
                              (Some e, w4) \<Rightarrow> (Inl e, s1, w4)
                            | (None, w4) \<Rightarrow>
                                (Inr True, s1, emit (Print (MsgSavedSingle output_file)) w4))))))"

definition scrape_single_url :: "env \<Rightarrow> string \<Rightarrow> string \<Rightarrow> iface \<Rightarrow> world \<Rightarrow> bool outcome" where
  "scrape_single_url E url output_file s w =
     finally_stop E
       (except_Exception MsgErrorUrl
          (scrape_single_try E url output_file s (emit (Print (MsgScrapingSingle url)) w)))"

text \<open>
  \<^verbatim>\<open>extract_and_save_clean_data_from_urls\<close> is a method of the session whose body is in
  \<^verbatim>\<open>yt_data_extractor.py\<close>: for \<^verbatim>\<open>main.py\<close> it is one call, which completes or raises.
\<close>

type_synonym batch_op = "env \<Rightarrow> nat \<Rightarrow> string list \<Rightarrow> string \<Rightarrow> world \<Rightarrow> pyexc option \<times> world"

definition extract_and_save_clean_data_from_urls :: batch_op where
  "extract_and_save_clean_data_from_urls E x urls out w =
     (let r = batch_res E (log w) x urls out in (r, emit (BatchCall x urls out r) w))"

text \<open>The \<^verbatim>\<open>try\<close> block of \<^verbatim>\<open>scrape_multiple_urls\<close>, over the batch method \<open>B\<close> it calls.\<close>

definition scrape_multiple_try ::
  "batch_op \<Rightarrow> env \<Rightarrow> string list \<Rightarrow> string \<Rightarrow> iface \<Rightarrow> world \<Rightarrow> bool outcome" where
  "scrape_multiple_try B E urls output_file s w =
     (case construct E (headless s) (enable_anti_detection s) w of
        (Inl e, w1) \<Rightarrow> (Inl e, s, w1)
      | (Inr x, w1) \<Rightarrow>
          (let s1 = s\<lparr>extractor := Some x\<rparr> in
           case start E x w1 of
             (Some e, w2) \<Rightarrow> (Inl e, s1, w2)
           | (None, w2) \<Rightarrow>
               (case B E x urls output_file w2 of
                  (Some e, w3) \<Rightarrow> (Inl e, s1, w3)
                | (None, w3) \<Rightarrow>
                    (Inr True, s1, emit (Print (MsgSavedMany (length urls) output_file)) w3))))"

definition scrape_multiple_urls_with ::
  "batch_op \<Rightarrow> env \<Rightarrow> string list \<Rightarrow> string \<Rightarrow> iface \<Rightarrow> world \<Rightarrow> bool outcome" where
  "scrape_multiple_urls_with B E urls output_file s w =
     finally_stop E
       (except_Exception MsgErrorUrls
          (scrape_multiple_try B E urls output_file s
             (emit (Print (MsgScrapingMany (length urls))) w)))"

definition scrape_multiple_urls :: "env \<Rightarrow> string list \<Rightarrow> string \<Rightarrow> iface \<Rightarrow> world \<Rightarrow> bool outcome" where
  "scrape_multiple_urls = scrape_multiple_urls_with extract_and_save_clean_data_from_urls"

text \<open>
  The list comprehension of \<^verbatim>\<open>scrape_from_file\<close> over the lines \<^verbatim>\<open>f.readlines()\<close> returned:
  \<^verbatim>\<open>[line.strip() for line in lines if line.strip() and line.strip().startswith('http')]\<close>.
\<close>

definition file_urls :: "string list \<Rightarrow> string list" where
  "file_urls lines =
     [strip line. line \<leftarrow> lines, strip line \<noteq> [] \<and> startswith (strip line) ''http'']"

text \<open>
  \<^verbatim>\<open>scrape_from_file\<close>. \<^verbatim>\<open>os.path.exists\<close> and \<^verbatim>\<open>open\<close> look the path up in the same
  world; opening or decoding a file that exists can raise.
\<close>

definition scrape_from_file :: "env \<Rightarrow> string \<Rightarrow> string \<Rightarrow> iface \<Rightarrow> world \<Rightarrow> bool outcome" where
  "scrape_from_file E file_path output_file s w =
     except_Exception MsgErrorReadingFile
       (case file_at E (log w) file_path of
          None \<Rightarrow> (Inr False, s, emit (Print (MsgFileNotFound file_path)) w)
        | Some (Unreadable e) \<Rightarrow> (Inl e, s, w)
        | Some (TextFile lines) \<Rightarrow>
            (let urls = file_urls lines in
             if urls = []
             then (Inr False, s, emit (Print (MsgNoValidUrls file_path)) w)
             else scrape_multiple_urls E urls output_file s
                    (emit (Print (MsgFound (length urls) file_path)) w)))"

subsection \<open>Interactive mode\<close>

text \<open>\<^verbatim>\<open>input(prompt)\<close>: a line from the terminal, or an exception (\<^verbatim>\<open>EOFError\<close>, an interrupt).\<close>

definition input :: "env \<Rightarrow> prompt \<Rightarrow> world \<Rightarrow> (pyexc + string) \<times> world" where
  "input E p w = (let r = input_res E (log w) p in (r, emit (Input p r) w))"

text \<open>\<^verbatim>\<open>input("Output file name ...").strip() or default\<close>.\<close>

definition ask_output :: "env \<Rightarrow> string \<Rightarrow> world \<Rightarrow> (pyexc + string) \<times> world" where
  "ask_output E dflt w =
     (case input E AskOutput w of
        (Inl e, w1) \<Rightarrow> (Inl e, w1)
      | (Inr l, w1) \<Rightarrow> (Inr (if strip l \<noteq> [] then strip l else dflt), w1))"

text \<open>The five \<^verbatim>\<open>print\<close> statements of the menu.\<close>

definition print_menu :: "world \<Rightarrow> world" where
  "print_menu w =
     emit (Print (MsgMenu 4)) (emit (Print (MsgMenu 3)) (emit (Print (MsgMenu 2))
       (emit (Print (MsgMenu 1)) (emit (Print (MsgMenu 0)) w))))"

text \<open>
  The \<^verbatim>\<open>while True\<close> loop of \<^verbatim>\<open>interactive_mode\<close> runs as long as the user does not choose
  4, so the model takes fuel, one unit for each turn of the loop: \<^verbatim>\<open>None\<close> is a loop that
  has not ended within the fuel. The results of the scraping calls are dropped, their
  exceptions leave the loop.
\<close>

fun interactive_loop ::
  "nat \<Rightarrow> env \<Rightarrow> iface \<Rightarrow> world \<Rightarrow> (pyexc option \<times> iface \<times> world) option" where
  "interactive_loop 0 E s w = None"
| "interactive_loop (Suc n) E s w =
     (case input E AskChoice (print_menu w) of
        (Inl e, w1) \<Rightarrow> Some (Some e, s, w1)
      | (Inr c, w1) \<Rightarrow>
          if strip c = ''1'' then
            (case input E AskUrl w1 of
               (Inl e, w2) \<Rightarrow> Some (Some e, s, w2)
             | (Inr l, w2) \<Rightarrow>
                 if strip l \<noteq> [] then
                   (case ask_output E ''youtube_data.json'' w2 of
                      (Inl e, w3) \<Rightarrow> Some (Some e, s, w3)
                    | (Inr output, w3) \<Rightarrow>
                        (case scrape_single_url E (strip l) output s w3 of
                           (Inl e, s', w4) \<Rightarrow> Some (Some e, s', w4)
                         | (Inr b, s', w4) \<Rightarrow> interactive_loop n E s' w4))
                 else interactive_loop n E s w2)
          else if strip c = ''2'' then
            (case input E AskUrls w1 of
               (Inl e, w2) \<Rightarrow> Some (Some e, s, w2)
             | (Inr l, w2) \<Rightarrow>
                 if strip l \<noteq> [] then
                   (case ask_output E ''youtube_batch_data.json'' w2 of
                      (Inl e, w3) \<Rightarrow> Some (Some e, s, w3)
                    | (Inr output, w3) \<Rightarrow>
                        (case scrape_multiple_urls E
                                [strip u. u \<leftarrow> split_on CHR '','' (strip l), strip u \<noteq> []]
                                output s w3 of
                           (Inl e, s', w4) \<Rightarrow> Some (Some e, s', w4)
                         | (Inr b, s', w4) \<Rightarrow> interactive_loop n E s' w4))
                 else interactive_loop n E s w2)
          else if strip c = ''3'' then
            (case input E AskFile w1 of
               (Inl e, w2) \<Rightarrow> Some (Some e, s, w2)
             | (Inr l, w2) \<Rightarrow>
                 if strip l \<noteq> [] then
                   (case ask_output E ''youtube_file_data.json'' w2 of
                      (Inl e, w3) \<Rightarrow> Some (Some e, s, w3)
                    | (Inr output, w3) \<Rightarrow>
                        (case scrape_from_file E (strip l) output s w3 of
                           (Inl e, s', w4) \<Rightarrow> Some (Some e, s', w4)
                         | (Inr b, s', w4) \<Rightarrow> interactive_loop n E s' w4))
                 else interactive_loop n E s w2)
          else if strip c = ''4'' then Some (None, s, emit (Print MsgGoodbye) w1)
          else interactive_loop n E s (emit (Print MsgInvalidChoice) w1))"

definition interactive_mode ::
  "nat \<Rightarrow> env \<Rightarrow> iface \<Rightarrow> world \<Rightarrow> (pyexc option \<times> iface \<times> world) option" where
  "interactive_mode fuel E s w =
     interactive_loop fuel E s (emit (Print MsgRule) (emit (Print MsgBanner) w))"

subsection \<open>The convenience functions\<close>

definition quick_scrape :: "env \<Rightarrow> string \<Rightarrow> string \<Rightarrow> bool \<Rightarrow> world \<Rightarrow> bool outcome" where
  "quick_scrape E url output h w = scrape_single_url E url output (init h True) w"

definition quick_batch_scrape :: "env \<Rightarrow> string list \<Rightarrow> string \<Rightarrow> bool \<Rightarrow> world \<Rightarrow> bool outcome" where
  "quick_batch_scrape E urls output h w = scrape_multiple_urls E urls output (init h True) w"

definition quick_file_scrape :: "env \<Rightarrow> string \<Rightarrow> string \<Rightarrow> bool \<Rightarrow> world \<Rightarrow> bool outcome" where
  "quick_file_scrape E file_path output h w = scrape_from_file E file_path output (init h True) w"

section \<open>The command line\<close>

text \<open>
  The namespace \<^verbatim>\<open>parser.parse_args()\<close> returns: \<^verbatim>\<open>--url\<close>, \<^verbatim>\<open>--urls\<close> and \<^verbatim>\<open>--file\<close> are
  \<^verbatim>\<open>None\<close> unless given. \<^verbatim>\<open>main\<close> is modelled from there on.
\<close>

record args =
  arg_url :: "string option"
  arg_urls :: "string option"
  arg_file :: "string option"
  arg_interactive :: bool
  arg_output :: string
  arg_headless :: bool
  arg_show_browser :: bool
  arg_no_anti_detection :: bool

text \<open>\<^verbatim>\<open>elif args.url:\<close> holds for a string that is not empty.\<close>

definition given :: "string option \<Rightarrow> bool" where
  "given a = (case a of None \<Rightarrow> False | Some v \<Rightarrow> v \<noteq> [])"

text \<open>\<^verbatim>\<open>sys.exit(0 if success else 1)\<close> raises \<^verbatim>\<open>SystemExit\<close>.\<close>

definition sys_exit_on :: "bool outcome \<Rightarrow> pyexc option \<times> world" where
  "sys_exit_on res =
     (case res of
        (Inl e, s, w) \<Rightarrow> (Some e, w)
      | (Inr success, s, w) \<Rightarrow> (Some (SystemExit (if success then 0 else 1)), w))"

text \<open>The coroutine \<^verbatim>\<open>run_scraper\<close>: \<^verbatim>\<open>None\<close> in the pair when it returns, else what it raises.\<close>

definition run_scraper :: "nat \<Rightarrow> env \<Rightarrow> args \<Rightarrow> world \<Rightarrow> (pyexc option \<times> world) option" where
  "run_scraper fuel E a w =
     (let scraper = init (arg_headless a \<and> \<not> arg_show_browser a) (\<not> arg_no_anti_detection a) in
      if arg_interactive a then
        map_option (\<lambda>(r, s, w'). (r, w')) (interactive_mode fuel E scraper w)
      else if given (arg_url a) then
        Some (sys_exit_on (scrape_single_url E (the (arg_url a)) (arg_output a) scraper w))
      else if given (arg_urls a) then
        Some (sys_exit_on
          (scrape_multiple_urls E
             [strip u. u \<leftarrow> split_on CHR '','' (the (arg_urls a)), strip u \<noteq> []]
             (arg_output a) scraper w))
      else if given (arg_file a) then
        Some (sys_exit_on (scrape_from_file E (the (arg_file a)) (arg_output a) scraper w))
      else
        map_option (\<lambda>(r, s, w'). (r, w'))
          (interactive_mode fuel E scraper
             (emit (Print MsgStartingInteractive) (emit (Print MsgHelp) w))))"

text \<open>
  \<^verbatim>\<open>main\<close>, from the parsed arguments to the exit status of the process and the world it
  leaves. \<^verbatim>\<open>asyncio.run\<close> hands on what the coroutine raises. \<^verbatim>\<open>SystemExit\<close> is caught by
  neither handler and ends the process with its code; \<^verbatim>\<open>main\<close> returning ends it with 0; an
  exception no handler takes ends it with 1.
\<close>

definition main :: "nat \<Rightarrow> env \<Rightarrow> args \<Rightarrow> world \<Rightarrow> (int \<times> world) option" where
  "main fuel E a w =
     (case run_scraper fuel E a w of
        None \<Rightarrow> None
      | Some (None, w') \<Rightarrow> Some (0, w')
      | Some (Some KeyboardInterrupt, w') \<Rightarrow> Some (1, emit (Print MsgInterrupted) w')
      | Some (Some (PyException m), w') \<Rightarrow>
          Some (1, emit (Print (MsgUnexpected (PyException m))) w')
      | Some (Some (SystemExit c), w') \<Rightarrow> Some (c, w')
      | Some (Some (PyBaseException m), w') \<Rightarrow> Some (1, w'))"

definition exit_status :: "nat \<Rightarrow> env \<Rightarrow> args \<Rightarrow> world \<Rightarrow> int option" where
  "exit_status fuel E a w = map_option fst (main fuel E a w)"

section \<open>The batch method of the session\<close>

text \<open>
  The method \<^verbatim>\<open>AdvancedYouTubeExtractor.extract_and_save_clean_data_from_urls\<close> that
  \<^verbatim>\<open>scrape_multiple_urls\<close> calls is in the module \<^verbatim>\<open>yt_data_extractor\<close>, which is not among
  the sources. What the spec says of the batch is modelled here, beside the opaque call
  above.
\<close>

text \<open>
  Modelled from the spec: the text of the \<^verbatim>\<open>error\<close> field of a Record made of a failure
  (the description of why the extraction failed); missing is the code of
  \<^verbatim>\<open>yt_data_extractor\<close> that builds the Record.
\<close>

fun exc_text :: "pyexc \<Rightarrow> string" where
  "exc_text (PyException m) = m"
| "exc_text KeyboardInterrupt = ''KeyboardInterrupt''"
| "exc_text (SystemExit c) = ''SystemExit''"
| "exc_text (PyBaseException m) = m"

text \<open>
  Modelled from the spec: the error-bearing Record a Target's failure is converted into
  (\<open>an object carrying an error field describing why extraction failed for that
  Target\<close>); missing is the code of \<^verbatim>\<open>yt_data_extractor\<close> that builds it.
\<close>

definition error_record :: "string \<Rightarrow> pyexc \<Rightarrow> pyval" where
  "error_record url e =
     PDict [(''url'', PStr url), (''error'', PStr (''Extraction failed: '' @ exc_text e))]"

text \<open>
  Modelled from the spec: the loop of \<^verbatim>\<open>extract_and_save_clean_data_from_urls\<close>, whose body
  is missing. The spec has it as: for each Target in input order, perform extraction and
  append the resulting Record (success or error-bearing) to the ResultSet; a single
  Target's extraction failure is caught, converted into an error-bearing Record, and does
  not abort the remaining batch. A failure that is caught is an exception of the class
  \<^verbatim>\<open>Exception\<close>; any other exception during the iteration is an unexpected fault and leaves
  the loop.
\<close>

fun extract_each ::
  "env \<Rightarrow> nat \<Rightarrow> string list \<Rightarrow> pyval list \<Rightarrow> world \<Rightarrow> (pyexc + pyval list) \<times> world" where
  "extract_each E x [] acc w = (Inr acc, w)"
| "extract_each E x (url # urls) acc w =
     (case extract_youtube_data E x url w of
        (Inr data, w1) \<Rightarrow> extract_each E x urls (acc @ [data]) w1
      | (Inl e, w1) \<Rightarrow>
          if is_Exception e then extract_each E x urls (acc @ [error_record url e]) w1
          else (Inl e, w1))"

text \<open>
  Modelled from the spec: \<^verbatim>\<open>extract_and_save_clean_data_from_urls\<close>, whose body is missing.
  The spec has it as: after all Targets are processed, hand the full ResultSet to the
  Output Writer in one call.
\<close>

definition extract_and_save_spec :: batch_op where
  "extract_and_save_spec E x urls out w =
     (case extract_each E x urls [] w of
        (Inl e, w1) \<Rightarrow> (Some e, w1)
      | (Inr rs, w1) \<Rightarrow> save_clean_final_output E x rs out w1)"

text \<open>
  Modelled from the spec: the spec's \<^verbatim>\<open>scrape_many\<close>, which is \<^verbatim>\<open>scrape_multiple_urls\<close> of
  \<^verbatim>\<open>main.py\<close> over the batch method as modelled; missing is the body of that method.
\<close>

definition scrape_many :: "env \<Rightarrow> string list \<Rightarrow> string \<Rightarrow> iface \<Rightarrow> world \<Rightarrow> bool outcome" where
  "scrape_many = scrape_multiple_urls_with extract_and_save_spec"

section \<open>Reading a trace\<close>

text \<open>The sessions \<^verbatim>\<open>stop\<close> was called on, in order, one entry for each call.\<close>

fun stop_calls :: "event list \<Rightarrow> nat list" where
  "stop_calls [] = []"
| "stop_calls (Stop x r # evs) = x # stop_calls evs"
| "stop_calls (ev # evs) = stop_calls evs"

text \<open>The sessions that were constructed, and whether a construction raised.\<close>

fun constructed :: "event list \<Rightarrow> nat list" where
  "constructed [] = []"
| "constructed (Construct h a (Inr x) # evs) = x # constructed evs"
| "constructed (ev # evs) = constructed evs"

fun construction_raised :: "event list \<Rightarrow> bool" where
  "construction_raised [] = False"
| "construction_raised (Construct h a (Inl e) # evs) = True"
| "construction_raised (ev # evs) = construction_raised evs"

text \<open>The sessions \<^verbatim>\<open>start\<close> was called on, and whether a call of \<^verbatim>\<open>start\<close> raised.\<close>

fun start_calls :: "event list \<Rightarrow> nat list" where
  "start_calls [] = []"
| "start_calls (Start x r # evs) = x # start_calls evs"
| "start_calls (ev # evs) = start_calls evs"

fun start_raised :: "event list \<Rightarrow> bool" where
  "start_raised [] = False"
| "start_raised (Start x (Some e) # evs) = True"
| "start_raised (ev # evs) = start_raised evs"

text \<open>The extractions: the Target and what the call returned or raised.\<close>

fun extractions :: "event list \<Rightarrow> (string \<times> (pyexc + pyval)) list" where
  "extractions [] = []"
| "extractions (Extract x url r # evs) = (url, r) # extractions evs"
| "extractions (ev # evs) = extractions evs"

text \<open>The calls of the Output Writer: the ResultSet, the destination and the outcome.\<close>

fun writes :: "event list \<Rightarrow> (pyval list \<times> string \<times> pyexc option) list" where
  "writes [] = []"
| "writes (Save x rs out r # evs) = (rs, out, r) # writes evs"
| "writes (ev # evs) = writes evs"

fun write_raised :: "event list \<Rightarrow> bool" where
  "write_raised [] = False"
| "write_raised (Save x rs out (Some e) # evs) = True"
| "write_raised (ev # evs) = write_raised evs"

text \<open>What was printed.\<close>

fun printed :: "event list \<Rightarrow> message list" where
  "printed [] = []"
| "printed (Print m # evs) = m # printed evs"
| "printed (ev # evs) = printed evs"

text \<open>The calls on sessions: everything but printing and reading the terminal.\<close>

fun session_calls :: "event list \<Rightarrow> event list" where
  "session_calls [] = []"
| "session_calls (Print m # evs) = session_calls evs"
| "session_calls (Input p r # evs) = session_calls evs"
| "session_calls (ev # evs) = ev # session_calls evs"

fun stop_raised :: "event list \<Rightarrow> bool" where
  "stop_raised [] = False"
| "stop_raised (Stop x (Some e) # evs) = True"
| "stop_raised (ev # evs) = stop_raised evs"

text \<open>The exceptions the calls of a trace raised, in order.\<close>

fun raised :: "event list \<Rightarrow> pyexc list" where
  "raised [] = []"
| "raised (Input p (Inl e) # evs) = e # raised evs"
| "raised (Construct h a (Inl e) # evs) = e # raised evs"
| "raised (Start x (Some e) # evs) = e # raised evs"
| "raised (Extract x url (Inl e) # evs) = e # raised evs"
| "raised (Save x rs out (Some e) # evs) = e # raised evs"
| "raised (BatchCall x urls out (Some e) # evs) = e # raised evs"
| "raised (Stop x (Some e) # evs) = e # raised evs"
| "raised (ev # evs) = raised evs"

text \<open>
  Modelled from the spec: the Record of a Target in the batch method, whose body is
  missing: what the extraction returned, or the error-bearing Record made of what it
  raised.
\<close>

fun record_for :: "string \<times> (pyexc + pyval) \<Rightarrow> pyval" where
  "record_for (url, Inr data) = data"
| "record_for (url, Inl e) = error_record url e"

section \<open>Worlds to run the program in\<close>

text \<open>
  A deterministic mock of the collaborators: the outcome of a call depends on its
  arguments only, not on the session it is made on nor on what happened before.
\<close>

definition mock_env ::
  "(bool \<Rightarrow> bool \<Rightarrow> pyexc option) \<Rightarrow> pyexc option \<Rightarrow> (string \<Rightarrow> pyexc + pyval) \<Rightarrow>
   (pyval list \<Rightarrow> string \<Rightarrow> pyexc option) \<Rightarrow> (string list \<Rightarrow> string \<Rightarrow> pyexc option) \<Rightarrow>
   pyexc option \<Rightarrow> (string \<Rightarrow> fs_node option) \<Rightarrow> (prompt \<Rightarrow> pyexc + string) \<Rightarrow> env" where
  "mock_env c st ex sv bt sp fl inp =
     \<lparr>construct_res = (\<lambda>h. c), start_res = (\<lambda>h x. st), extract_res = (\<lambda>h x. ex),
      save_res = (\<lambda>h x. sv), batch_res = (\<lambda>h x. bt), stop_res = (\<lambda>h x. sp),
      file_at = (\<lambda>h. fl), input_res = (\<lambda>h. inp)\<rparr>"

text \<open>The world before the program has done anything.\<close>

definition world0 :: world where
  "world0 = \<lparr>log = [], created = 0\<rparr>"

text \<open>A clean record and an error-bearing one.\<close>

definition video_a :: pyval where
  "video_a = PDict [(''url'', PStr ''https://a''), (''title'', PStr ''A'')]"

definition failed_b :: pyval where
  "failed_b = PDict [(''url'', PStr ''https://b''), (''error'', PStr ''Video unavailable'')]"

text \<open>
  A mock in which every call completes: \<^verbatim>\<open>https://a\<close> extracts to a clean record,
  \<^verbatim>\<open>https://b\<close> to an error-bearing one, any other Target makes the extraction raise; the
  file \<^verbatim>\<open>urls.txt\<close> holds two Targets among other lines, \<^verbatim>\<open>notes.txt\<close> holds none,
  \<^verbatim>\<open>empty.txt\<close> is empty, and no other file exists.
\<close>

definition extract_ab :: "string \<Rightarrow> pyexc + pyval" where
  "extract_ab url =
     (if url = ''https://a'' then Inr video_a
      else if url = ''https://b'' then Inr failed_b
      else Inl (PyException ''TimeoutError''))"

definition files_ab :: "string \<Rightarrow> fs_node option" where
  "files_ab path =
     (if path = ''urls.txt''
      then Some (TextFile [''  https://a  '', [], ''note: not a url'', ''https://b''])
      else if path = ''notes.txt'' then Some (TextFile [[], ''   '', ''note: not a url''])
      else if path = ''empty.txt'' then Some (TextFile [])
      else None)"

definition env_ok :: env where
  "env_ok = mock_env (\<lambda>h a. None) None extract_ab (\<lambda>rs out. None) (\<lambda>urls out. None) None
              files_ab (\<lambda>p. Inl (PyException ''EOFError''))"

text \<open>The same mock, where the construction of the session raises.\<close>

definition env_no_session :: env where
  "env_no_session =
     env_ok\<lparr>construct_res := (\<lambda>h hl a. Some (PyException ''browser not installed''))\<rparr>"

text \<open>The same mock, where only the first construction succeeds: a later one raises.\<close>

definition env_one_session :: env where
  "env_one_session =
     env_ok\<lparr>construct_res :=
       (\<lambda>h hl a. if constructed h = [] then None
                  else Some (PyException ''browser not installed''))\<rparr>"

text \<open>The same mock, where \<^verbatim>\<open>start\<close> raises, and where the user interrupts \<^verbatim>\<open>start\<close>.\<close>

definition env_start_fails :: env where
  "env_start_fails = env_ok\<lparr>start_res := (\<lambda>h x. Some (PyException ''launch failed''))\<rparr>"

definition env_interrupted :: env where
  "env_interrupted = env_ok\<lparr>start_res := (\<lambda>h x. Some KeyboardInterrupt)\<rparr>"

text \<open>The same mock, where \<^verbatim>\<open>stop\<close> raises, and where the Output Writer raises.\<close>

definition env_stop_fails :: env where
  "env_stop_fails = env_ok\<lparr>stop_res := (\<lambda>h x. Some (PyException ''stop failed''))\<rparr>"

definition env_write_fails :: env where
  "env_write_fails = env_ok\<lparr>save_res := (\<lambda>h x rs out. Some (PyException ''disk full''))\<rparr>"

text \<open>The command line \<^verbatim>\<open>python main.py --url https://a\<close>.\<close>

definition args_url :: args where
  "args_url =
     \<lparr>arg_url = Some ''https://a'', arg_urls = None, arg_file = None, arg_interactive = False,
      arg_output = ''youtube_scraped_data.json'', arg_headless = True,
      arg_show_browser = False, arg_no_anti_detection = False\<rparr>"

section \<open>Traces grow by appending\<close>

lemma log_emit [simp]: "log (emit ev w) = log w @ [ev]"
  by (simp add: emit_def)

lemma created_emit [simp]: "created (emit ev w) = created w"
  by (simp add: emit_def)

lemma init_simps [simp]:
  "extractor (init h a) = None" "headless (init h a) = h" "enable_anti_detection (init h a) = a"
  by (simp_all add: init_def)

lemma new_events_append: "log w' = log w @ evs \<Longrightarrow> new_events w w' = evs"
  by (simp add: new_events_def)

lemma stop_calls_append [simp]: "stop_calls (a @ b) = stop_calls a @ stop_calls b"
  by (induction a rule: stop_calls.induct) simp_all

lemma constructed_append [simp]: "constructed (a @ b) = constructed a @ constructed b"
  by (induction a rule: constructed.induct) simp_all

lemma construction_raised_append [simp]:
  "construction_raised (a @ b) = (construction_raised a \<or> construction_raised b)"
  by (induction a rule: construction_raised.induct) simp_all

lemma start_calls_append [simp]: "start_calls (a @ b) = start_calls a @ start_calls b"
  by (induction a rule: start_calls.induct) simp_all

lemma start_raised_append [simp]: "start_raised (a @ b) = (start_raised a \<or> start_raised b)"
  by (induction a rule: start_raised.induct) simp_all

lemma extractions_append [simp]: "extractions (a @ b) = extractions a @ extractions b"
  by (induction a rule: extractions.induct) simp_all

lemma writes_append [simp]: "writes (a @ b) = writes a @ writes b"
  by (induction a rule: writes.induct) simp_all

lemma write_raised_append [simp]: "write_raised (a @ b) = (write_raised a \<or> write_raised b)"
  by (induction a rule: write_raised.induct) simp_all

lemma stop_raised_append [simp]: "stop_raised (a @ b) = (stop_raised a \<or> stop_raised b)"
  by (induction a rule: stop_raised.induct) simp_all

lemma raised_append [simp]: "raised (a @ b) = raised a @ raised b"
  by (induction a rule: raised.induct) simp_all

lemma printed_append [simp]: "printed (a @ b) = printed a @ printed b"
  by (induction a rule: printed.induct) simp_all

lemma session_calls_append [simp]: "session_calls (a @ b) = session_calls a @ session_calls b"
  by (induction a rule: session_calls.induct) simp_all

section \<open>The handler and the cleanup\<close>

lemma except_Exception_trace:
  assumes "except_Exception msg (r0, s0, w0) = (r, s', w')"
  shows "s' = s0 \<and> created w' = created w0 \<and>
       (case r0 of Inr b \<Rightarrow> r = r0 \<and> log w' = log w0
         | Inl e \<Rightarrow> if is_Exception e then r = Inr False \<and> log w' = log w0 @ [Print (msg e)] 
                     else r = r0 \<and> log w' = log w0)"
  using assms
  by (auto simp: except_Exception_def split: sum.splits if_splits)

lemma finally_stop_trace:
  assumes "finally_stop E (r0, s0, w0) = (r, s', w')"
  shows "s' = s0 \<and> created w' = created w0 \<and>
    (case extractor s0 of
       None \<Rightarrow> log w' = log w0 \<and> r = r0
     | Some x \<Rightarrow> (\<exists>res. log w' = log w0 @ [Stop x res] \<and> 
          (case res of None \<Rightarrow> r = r0 | Some e \<Rightarrow> r = Inl e)))"
  using assms
  by (auto simp: finally_stop_def stop_def Let_def split: option.splits)

text \<open>
  A \<^verbatim>\<open>try\<close> block under its handler and its cleanup: the handler prints at most one line,
  the cleanup calls \<^verbatim>\<open>stop\<close> at most once, last, on the session the object holds.
\<close>

lemma framed:
  assumes call: "finally_stop E (except_Exception msg (rT, sT, wT)) = (r, s', w')"
    and pre: "log wT = log w @ tevs"
  shows "s' = sT \<and> created w' = created wT \<and>
    (\<exists>hs fs rX. new_events w w' = tevs @ hs @ fs \<and>
       (case rT of
          Inr b \<Rightarrow> rX = rT \<and> hs = []
        | Inl e \<Rightarrow> if is_Exception e then rX = Inr False \<and> hs = [Print (msg e)]
                   else rX = rT \<and> hs = []) \<and>
       (case extractor sT of
          None \<Rightarrow> fs = [] \<and> r = rX
        | Some x \<Rightarrow> (\<exists>res. fs = [Stop x res] \<and>
            (case res of None \<Rightarrow> r = rX | Some e \<Rightarrow> r = Inl e))))"
proof -
  obtain rX sX wX where X: "except_Exception msg (rT, sT, wT) = (rX, sX, wX)"
    by (cases "except_Exception msg (rT, sT, wT)")
  note hx = except_Exception_trace [OF X]
  from call X have F: "finally_stop E (rX, sT, wX) = (r, s', w')"
    using hx by simp
  note hf = finally_stop_trace [OF F]
  obtain hs where hs: "log wX = log wT @ hs"
    "case rT of Inr b \<Rightarrow> rX = rT \<and> hs = []
        | Inl e \<Rightarrow> if is_Exception e then rX = Inr False \<and> hs = [Print (msg e)]
                   else rX = rT \<and> hs = []"
    using hx by (cases rT) (auto split: if_splits)
  obtain fs where fs: "log w' = log wX @ fs"
     "case extractor sT of
          None \<Rightarrow> fs = [] \<and> r = rX
        | Some x \<Rightarrow> (\<exists>res. fs = [Stop x res] \<and>
            (case res of None \<Rightarrow> r = rX | Some e \<Rightarrow> r = Inl e))"
    using hf by (cases "extractor sT") auto
  have ev: "new_events w w' = tevs @ hs @ fs"
    using pre hs(1) fs(1) by (simp add: new_events_append)
  have s: "s' = sT" and c: "created w' = created wT"
    using hx hf by simp_all
  have "\<exists>hs fs rX. new_events w w' = tevs @ hs @ fs \<and>
       (case rT of
          Inr b \<Rightarrow> rX = rT \<and> hs = []
        | Inl e \<Rightarrow> if is_Exception e then rX = Inr False \<and> hs = [Print (msg e)]
                   else rX = rT \<and> hs = []) \<and>
       (case extractor sT of
          None \<Rightarrow> fs = [] \<and> r = rX
        | Some x \<Rightarrow> (\<exists>res. fs = [Stop x res] \<and>
            (case res of None \<Rightarrow> r = rX | Some e \<Rightarrow> r = Inl e)))"
    using ev hs(2) fs(2) by (intro exI [of _ hs] exI [of _ fs] exI [of _ rX] conjI)
  with s c show ?thesis by simp
qed


text \<open>
  What the cleanup does, from what the \<^verbatim>\<open>try\<close> block did: the block calls \<^verbatim>\<open>stop\<close> nowhere, and
  either its construction raised and the object holds the session it held before, or it
  constructed the session \<open>x\<close> and the object holds \<open>x\<close>.
\<close>

lemma framed_shape:
  assumes call: "finally_stop E (except_Exception msg (rT, sT, wT)) = (r, s', w')"
    and pre: "log wT = log w @ tevs"
    and st: "stop_calls tevs = []"
    and ct: "if construction_raised tevs then sT = s \<and> constructed tevs = []
             else constructed tevs = [x] \<and> sT = s\<lparr>extractor := Some x\<rparr>"
  shows "(construction_raised (new_events w w') \<and> constructed (new_events w w') = [] \<and>
            s' = s \<and>
            stop_calls (new_events w w') = (case extractor s of None \<Rightarrow> [] | Some y \<Rightarrow> [y]))
       \<or> (\<not> construction_raised (new_events w w') \<and> constructed (new_events w w') = [x] \<and>
            s' = s\<lparr>extractor := Some x\<rparr> \<and> stop_calls (new_events w w') = [x] \<and>
            (\<exists>res. last (new_events w w') = Stop x res \<and> (\<forall>b. r = Inr b \<longrightarrow> res = None)))"
proof -
  from framed [OF call pre] obtain hs fs rX where
    s': "s' = sT" and ev: "new_events w w' = tevs @ hs @ fs"
    and hs: "case rT of
          Inr b \<Rightarrow> rX = rT \<and> hs = []
        | Inl e \<Rightarrow> if is_Exception e then rX = Inr False \<and> hs = [Print (msg e)]
                   else rX = rT \<and> hs = []"
    and fs: "case extractor sT of
          None \<Rightarrow> fs = [] \<and> r = rX
        | Some x \<Rightarrow> (\<exists>res. fs = [Stop x res] \<and>
            (case res of None \<Rightarrow> r = rX | Some e \<Rightarrow> r = Inl e))"
    by blast
  have hs': "hs = [] \<or> (\<exists>m. hs = [Print m])"
    using hs by (cases rT) (auto split: if_splits)
  then have hread: "stop_calls hs = []" "constructed hs = []" "\<not> construction_raised hs"
    by auto
  show ?thesis
  proof (cases "construction_raised tevs")
    case True
    with ct have sT: "sT = s" and c: "constructed tevs = []" by simp_all
    have fread: "stop_calls fs = (case extractor s of None \<Rightarrow> [] | Some y \<Rightarrow> [y])"
      "constructed fs = []" "\<not> construction_raised fs"
      using fs sT by (cases "extractor s"; auto)+
    show ?thesis
      using True c sT s' ev st hread fread by simp
  next
    case False
    with ct have sT: "sT = s\<lparr>extractor := Some x\<rparr>" and c: "constructed tevs = [x]"
      by simp_all
    from fs sT obtain res where res: "fs = [Stop x res]"
      "case res of None \<Rightarrow> r = rX | Some e \<Rightarrow> r = Inl e"
      by auto
    have "\<forall>b. r = Inr b \<longrightarrow> res = None"
      using res(2) by (cases res) auto
    then show ?thesis
      using False c sT s' ev st hread res(1) by simp
  qed
qed

lemmas op_defs = construct_def start_def extract_youtube_data_def save_clean_final_output_def
  stop_def extract_and_save_clean_data_from_urls_def

lemma single_try_log:
  "log (snd (snd (scrape_single_try E url out s w))) =
     log w @ new_events w (snd (snd (scrape_single_try E url out s w)))"
  by (simp add: scrape_single_try_def op_defs new_events_def Let_def
      split: sum.split option.split)

lemma single_try_stops:
  "stop_calls (new_events w (snd (snd (scrape_single_try E url out s w)))) = []"
  by (simp add: scrape_single_try_def op_defs new_events_def Let_def
      split: sum.split option.split)

lemma single_try_ctor:
  "(let res = scrape_single_try E url out s w; evs = new_events w (snd (snd res)) in
    (construction_raised evs \<longrightarrow> fst (snd res) = s \<and> constructed evs = []) \<and>
    (\<not> construction_raised evs \<longrightarrow>
       constructed evs = [created w] \<and> fst (snd res) = s\<lparr>extractor := Some (created w)\<rparr>))"
  by (simp add: scrape_single_try_def op_defs new_events_def Let_def
      split: sum.split option.split)

lemma scrape_single_url_shape:
  assumes "scrape_single_url E url out s w = (r, s', w')"
  shows "(construction_raised (new_events w w') \<and> constructed (new_events w w') = [] \<and>
            s' = s \<and>
            stop_calls (new_events w w') = (case extractor s of None \<Rightarrow> [] | Some y \<Rightarrow> [y]))
       \<or> (\<not> construction_raised (new_events w w') \<and>
            constructed (new_events w w') = [created w] \<and>
            s' = s\<lparr>extractor := Some (created w)\<rparr> \<and>
            stop_calls (new_events w w') = [created w] \<and>
            (\<exists>res. last (new_events w w') = Stop (created w) res \<and>
                   (\<forall>b. r = Inr b \<longrightarrow> res = None)))"
proof -
  let ?m = "Print (MsgScrapingSingle url)"
  obtain rT sT wT where T: "scrape_single_try E url out s (emit ?m w) = (rT, sT, wT)"
    by (cases "scrape_single_try E url out s (emit ?m w)")
  define tevs where "tevs = new_events (emit ?m w) wT"
  have pre: "log wT = log w @ (?m # tevs)"
    using single_try_log [of E url out s "emit ?m w"] by (simp add: T tevs_def)
  have st: "stop_calls (?m # tevs) = []"
    using single_try_stops [of "emit ?m w" E url out s] by (simp add: T tevs_def)
  have ct: "if construction_raised (?m # tevs) then sT = s \<and> constructed (?m # tevs) = []
      else constructed (?m # tevs) = [created w] \<and> sT = s\<lparr>extractor := Some (created w)\<rparr>"
    using single_try_ctor [of E url out s "emit ?m w"] by (auto simp: T tevs_def Let_def)
  from assms T have call: "finally_stop E (except_Exception MsgErrorUrl (rT, sT, wT)) = (r, s', w')"
    by (simp add: scrape_single_url_def)
  show ?thesis
    by (rule framed_shape [OF call pre st ct])
qed


text \<open>The three ways through the \<^verbatim>\<open>try\<close> block of \<^verbatim>\<open>scrape_multiple_urls\<close>.\<close>

lemma multiple_try_trace:
  assumes T: "scrape_multiple_try B E urls out s w = (rT, sT, wT)"
  shows "(\<exists>e. rT = Inl e \<and> sT = s \<and>
            log wT = log w @ [Construct (headless s) (enable_anti_detection s) (Inl e)])
    \<or> (\<exists>e. rT = Inl e \<and> sT = s\<lparr>extractor := Some (created w)\<rparr> \<and>
            log wT = log w @ [Construct (headless s) (enable_anti_detection s) (Inr (created w)),
                              Start (created w) (Some e)])
    \<or> (\<exists>w2 rB wB.
          log w2 = log w @ [Construct (headless s) (enable_anti_detection s) (Inr (created w)),
                            Start (created w) None] \<and>
          B E (created w) urls out w2 = (rB, wB) \<and>
          sT = s\<lparr>extractor := Some (created w)\<rparr> \<and>
          (case rB of
             Some e \<Rightarrow> rT = Inl e \<and> log wT = log wB
           | None \<Rightarrow> rT = Inr True \<and>
               log wT = log wB @ [Print (MsgSavedMany (length urls) out)]))"
proof (cases "construct_res E (log w) (headless s) (enable_anti_detection s)")
  case (Some e)
  with T show ?thesis
    by (auto simp: scrape_multiple_try_def construct_def)
next
  case None
  let ?w1 = "emit (Construct (headless s) (enable_anti_detection s) (Inr (created w)))
               (w\<lparr>created := Suc (created w)\<rparr>)"
  show ?thesis
  proof (cases "start_res E (log ?w1) (created w)")
    case (Some e)
    with None T show ?thesis
      by (auto simp: scrape_multiple_try_def construct_def start_def Let_def)
  next
    case st: None
    let ?w2 = "emit (Start (created w) None) ?w1"
    obtain rB wB where B: "B E (created w) urls out ?w2 = (rB, wB)"
      by (cases "B E (created w) urls out ?w2")
    have "log ?w2 = log w @ [Construct (headless s) (enable_anti_detection s) (Inr (created w)),
                            Start (created w) None]"
      by simp
    moreover have "sT = s\<lparr>extractor := Some (created w)\<rparr> \<and>
          (case rB of
             Some e \<Rightarrow> rT = Inl e \<and> log wT = log wB
           | None \<Rightarrow> rT = Inr True \<and>
               log wT = log wB @ [Print (MsgSavedMany (length urls) out)])"
      using None st T B
      by (cases rB) (auto simp: scrape_multiple_try_def construct_def start_def Let_def)
    ultimately show ?thesis
      using B by blast
  qed
qed

lemma scrape_multiple_urls_with_shape:
  assumes B: "\<And>x w2 rB wB. B E x urls out w2 = (rB, wB) \<Longrightarrow>
      \<exists>bevs. log wB = log w2 @ bevs \<and> stop_calls bevs = [] \<and> constructed bevs = [] \<and>
             \<not> construction_raised bevs"
    and call: "scrape_multiple_urls_with B E urls out s w = (r, s', w')"
  shows "(construction_raised (new_events w w') \<and> constructed (new_events w w') = [] \<and>
            s' = s \<and>
            stop_calls (new_events w w') = (case extractor s of None \<Rightarrow> [] | Some y \<Rightarrow> [y]))
       \<or> (\<not> construction_raised (new_events w w') \<and>
            constructed (new_events w w') = [created w] \<and>
            s' = s\<lparr>extractor := Some (created w)\<rparr> \<and>
            stop_calls (new_events w w') = [created w] \<and>
            (\<exists>res. last (new_events w w') = Stop (created w) res \<and>
                   (\<forall>b. r = Inr b \<longrightarrow> res = None)))"
proof -
  let ?m = "Print (MsgScrapingMany (length urls))"
  obtain rT sT wT where T: "scrape_multiple_try B E urls out s (emit ?m w) = (rT, sT, wT)"
    by (cases "scrape_multiple_try B E urls out s (emit ?m w)")
  have "\<exists>tevs. log wT = log w @ (?m # tevs) \<and> stop_calls tevs = [] \<and>
      (if construction_raised tevs then sT = s \<and> constructed tevs = []
       else constructed tevs = [created w] \<and> sT = s\<lparr>extractor := Some (created w)\<rparr>)"
    using multiple_try_trace [OF T]
  proof (elim disjE exE conjE)
    fix w2 rB wB
    assume w2: "log w2 = log (emit ?m w) @
        [Construct (headless s) (enable_anti_detection s) (Inr (created (emit ?m w))),
         Start (created (emit ?m w)) None]"
      and b: "B E (created (emit ?m w)) urls out w2 = (rB, wB)"
      and sT: "sT = s\<lparr>extractor := Some (created (emit ?m w))\<rparr>"
      and rB: "case rB of
             Some e \<Rightarrow> rT = Inl e \<and> log wT = log wB
           | None \<Rightarrow> rT = Inr True \<and>
               log wT = log wB @ [Print (MsgSavedMany (length urls) out)]"
    from B [OF b] obtain bevs where bevs: "log wB = log w2 @ bevs" "stop_calls bevs = []"
      "constructed bevs = []" "\<not> construction_raised bevs"
      by blast
    show ?thesis
      using w2 sT rB bevs by (cases rB) auto
  qed auto
  then obtain tevs where pre: "log wT = log w @ (?m # tevs)" and st: "stop_calls (?m # tevs) = []"
    and ct: "if construction_raised (?m # tevs) then sT = s \<and> constructed (?m # tevs) = []
       else constructed (?m # tevs) = [created w] \<and> sT = s\<lparr>extractor := Some (created w)\<rparr>"
    by auto
  from call T have c: "finally_stop E (except_Exception MsgErrorUrls (rT, sT, wT)) = (r, s', w')"
    by (simp add: scrape_multiple_urls_with_def)
  show ?thesis
    by (rule framed_shape [OF c pre st ct])
qed

lemma batch_call_trace:
  assumes "extract_and_save_clean_data_from_urls E x urls out w2 = (rB, wB)"
  shows "log wB = log w2 @ [BatchCall x urls out rB]"
  using assms by (auto simp: extract_and_save_clean_data_from_urls_def Let_def)

lemma scrape_multiple_urls_shape:
  assumes "scrape_multiple_urls E urls out s w = (r, s', w')"
  shows "(construction_raised (new_events w w') \<and> constructed (new_events w w') = [] \<and>
            s' = s \<and>
            stop_calls (new_events w w') = (case extractor s of None \<Rightarrow> [] | Some y \<Rightarrow> [y]))
       \<or> (\<not> construction_raised (new_events w w') \<and>
            constructed (new_events w w') = [created w] \<and>
            s' = s\<lparr>extractor := Some (created w)\<rparr> \<and>
            stop_calls (new_events w w') = [created w] \<and>
            (\<exists>res. last (new_events w w') = Stop (created w) res \<and>
                   (\<forall>b. r = Inr b \<longrightarrow> res = None)))"
proof (rule scrape_multiple_urls_with_shape)
  show "scrape_multiple_urls_with extract_and_save_clean_data_from_urls E urls out s w = (r, s', w')"
    using assms by (simp add: scrape_multiple_urls_def)
next
  fix x w2 rB wB
  assume "extract_and_save_clean_data_from_urls E x urls out w2 = (rB, wB)"
  from batch_call_trace [OF this]
  show "\<exists>bevs. log wB = log w2 @ bevs \<and> stop_calls bevs = [] \<and> constructed bevs = [] \<and>
             \<not> construction_raised bevs"
    by simp
qed

section \<open>Reading the Targets of a file\<close>

lemma new_events_emit [simp]: "new_events w (emit ev w) = [ev]"
  by (simp add: new_events_def)

lemma startswith_Nil [simp]: "\<not> startswith [] ''http''"
  by (simp add: startswith_def)

lemma file_urls_filter:
  "file_urls lines = filter (\<lambda>t. startswith t ''http'') (map strip lines)"
  by (induction lines) (auto simp: file_urls_def)

lemma file_urls_Nil_iff:
  "file_urls lines = [] \<longleftrightarrow> (\<forall>line \<in> set lines. \<not> startswith (strip line) ''http'')"
  by (auto simp: file_urls_filter filter_empty_conv)

lemma last_dropWhile: "dropWhile P xs \<noteq> [] \<Longrightarrow> last (dropWhile P xs) = last xs"
  by (induction xs) auto

lemma strip_trimmed:
  assumes "strip s \<noteq> []"
  shows "\<not> is_space (hd (strip s)) \<and> \<not> is_space (last (strip s))"
proof -
  let ?t = "dropWhile is_space s"
  let ?u = "dropWhile is_space (rev ?t)"
  from assms have u: "?u \<noteq> []"
    by (simp add: strip_def)
  have t: "?t \<noteq> []"
  proof
    assume "?t = []"
    with u show False by simp
  qed
  have "\<not> is_space (hd ?u)"
    using u by (rule hd_dropWhile)
  moreover have "last ?u = hd ?t"
    using last_dropWhile [OF u] t by (simp add: last_rev)
  moreover have "\<not> is_space (hd ?t)"
    using t by (rule hd_dropWhile)
  ultimately show ?thesis
    using u by (simp add: strip_def hd_rev last_rev)
qed

lemma scrape_from_file_missing:
  "file_at E (log w) p = None \<Longrightarrow>
   scrape_from_file E p out s w = (Inr False, s, emit (Print (MsgFileNotFound p)) w)"
  by (simp add: scrape_from_file_def except_Exception_def)

lemma scrape_from_file_no_urls:
  "file_at E (log w) p = Some (TextFile lines) \<Longrightarrow> file_urls lines = [] \<Longrightarrow>
   scrape_from_file E p out s w = (Inr False, s, emit (Print (MsgNoValidUrls p)) w)"
  by (simp add: scrape_from_file_def except_Exception_def)

lemma scrape_from_file_urls:
  "file_at E (log w) p = Some (TextFile lines) \<Longrightarrow> file_urls lines \<noteq> [] \<Longrightarrow>
   scrape_from_file E p out s w =
     except_Exception MsgErrorReadingFile
       (scrape_multiple_urls E (file_urls lines) out s
          (emit (Print (MsgFound (length (file_urls lines)) p)) w))"
  by (simp add: scrape_from_file_def Let_def)

section \<open>The paths through \<^verbatim>\<open>scrape_single_url\<close>\<close>

lemma py_get_Inl: "py_get v k = Inl e \<Longrightarrow> is_Exception e"
  by (cases v) (auto split: option.splits)

lemma single_try_paths:
  "(let res = scrape_single_try E url out s w; rT = fst res;
        tevs = new_events w (snd (snd res)); x = created w;
        c = Construct (headless s) (enable_anti_detection s) in
    (\<exists>e. rT = Inl e \<and> tevs = [c (Inl e)])
  \<or> (\<exists>e. rT = Inl e \<and> tevs = [c (Inr x), Start x (Some e)])
  \<or> (\<exists>e. rT = Inl e \<and> tevs = [c (Inr x), Start x None, Extract x url (Inl e)])
  \<or> (\<exists>data e. rT = Inl e \<and> py_get data ''error'' = Inl e \<and>
        tevs = [c (Inr x), Start x None, Extract x url (Inr data)])
  \<or> (\<exists>data v. rT = Inr False \<and> py_get data ''error'' = Inr v \<and> truthy v \<and>
        tevs = [c (Inr x), Start x None, Extract x url (Inr data),
                Print (MsgFailedExtract v)])
  \<or> (\<exists>data v e. rT = Inl e \<and> py_get data ''error'' = Inr v \<and> \<not> truthy v \<and>
        tevs = [c (Inr x), Start x None, Extract x url (Inr data),
                Save x [data] out (Some e)])
  \<or> (\<exists>data v. rT = Inr True \<and> py_get data ''error'' = Inr v \<and> \<not> truthy v \<and>
        tevs = [c (Inr x), Start x None, Extract x url (Inr data),
                Save x [data] out None, Print (MsgSavedSingle out)]))"
  by (simp add: scrape_single_try_def op_defs new_events_def Let_def
      split: sum.split option.split)

text \<open>
  The whole of a call of \<^verbatim>\<open>scrape_single_url\<close>: the events of the \<^verbatim>\<open>try\<close> block, of the
  handler and of the cleanup, and the results on the way.
\<close>

lemma scrape_single_url_parts:
  assumes "scrape_single_url E url out s w = (r, s', w')"
  shows "\<exists>rT tevs hs fs rX.
    new_events w w' = Print (MsgScrapingSingle url) # tevs @ hs @ fs \<and>
    (let x = created w; c = Construct (headless s) (enable_anti_detection s) in
       (\<exists>e. rT = Inl e \<and> tevs = [c (Inl e)])
     \<or> (\<exists>e. rT = Inl e \<and> tevs = [c (Inr x), Start x (Some e)])
     \<or> (\<exists>e. rT = Inl e \<and> tevs = [c (Inr x), Start x None, Extract x url (Inl e)])
     \<or> (\<exists>data e. rT = Inl e \<and> is_Exception e \<and> py_get data ''error'' = Inl e \<and>
           tevs = [c (Inr x), Start x None, Extract x url (Inr data)])
     \<or> (\<exists>data v. rT = Inr False \<and> py_get data ''error'' = Inr v \<and> truthy v \<and>
           tevs = [c (Inr x), Start x None, Extract x url (Inr data),
                   Print (MsgFailedExtract v)])
     \<or> (\<exists>data v e. rT = Inl e \<and> py_get data ''error'' = Inr v \<and> \<not> truthy v \<and>
           tevs = [c (Inr x), Start x None, Extract x url (Inr data),
                   Save x [data] out (Some e)])
     \<or> (\<exists>data v. rT = Inr True \<and> py_get data ''error'' = Inr v \<and> \<not> truthy v \<and>
           tevs = [c (Inr x), Start x None, Extract x url (Inr data),
                   Save x [data] out None, Print (MsgSavedSingle out)])) \<and>
    (case rT of
       Inr b \<Rightarrow> rX = rT \<and> hs = []
     | Inl e \<Rightarrow> if is_Exception e then rX = Inr False \<and> hs = [Print (MsgErrorUrl e)]
                else rX = rT \<and> hs = []) \<and>
    (fs = [] \<and> r = rX \<or> (\<exists>y. fs = [Stop y None] \<and> r = rX) \<or>
     (\<exists>y e. fs = [Stop y (Some e)] \<and> r = Inl e))"
proof -
  let ?m = "Print (MsgScrapingSingle url)"
  obtain rT sT wT where T: "scrape_single_try E url out s (emit ?m w) = (rT, sT, wT)"
    by (cases "scrape_single_try E url out s (emit ?m w)")
  define tevs where "tevs = new_events (emit ?m w) wT"
  have pre: "log wT = log w @ (?m # tevs)"
    using single_try_log [of E url out s "emit ?m w"] by (simp add: T tevs_def)
  from assms T have call: "finally_stop E (except_Exception MsgErrorUrl (rT, sT, wT)) = (r, s', w')"
    by (simp add: scrape_single_url_def)
  from framed [OF call pre] obtain hs fs rX where
    ev: "new_events w w' = (?m # tevs) @ hs @ fs"
    and hs: "case rT of
          Inr b \<Rightarrow> rX = rT \<and> hs = []
        | Inl e \<Rightarrow> if is_Exception e then rX = Inr False \<and> hs = [Print (MsgErrorUrl e)]
                   else rX = rT \<and> hs = []"
    and fs: "case extractor sT of
          None \<Rightarrow> fs = [] \<and> r = rX
        | Some x \<Rightarrow> (\<exists>res. fs = [Stop x res] \<and>
            (case res of None \<Rightarrow> r = rX | Some e \<Rightarrow> r = Inl e))"
    by blast
  have fs': "fs = [] \<and> r = rX \<or> (\<exists>y. fs = [Stop y None] \<and> r = rX) \<or>
     (\<exists>y e. fs = [Stop y (Some e)] \<and> r = Inl e)"
    using fs by (cases "extractor sT") (auto split: option.splits)
  have paths: "(let x = created w; c = Construct (headless s) (enable_anti_detection s) in
       (\<exists>e. rT = Inl e \<and> tevs = [c (Inl e)])
     \<or> (\<exists>e. rT = Inl e \<and> tevs = [c (Inr x), Start x (Some e)])
     \<or> (\<exists>e. rT = Inl e \<and> tevs = [c (Inr x), Start x None, Extract x url (Inl e)])
     \<or> (\<exists>data e. rT = Inl e \<and> is_Exception e \<and> py_get data ''error'' = Inl e \<and>
           tevs = [c (Inr x), Start x None, Extract x url (Inr data)])
     \<or> (\<exists>data v. rT = Inr False \<and> py_get data ''error'' = Inr v \<and> truthy v \<and>
           tevs = [c (Inr x), Start x None, Extract x url (Inr data),
                   Print (MsgFailedExtract v)])
     \<or> (\<exists>data v e. rT = Inl e \<and> py_get data ''error'' = Inr v \<and> \<not> truthy v \<and>
           tevs = [c (Inr x), Start x None, Extract x url (Inr data),
                   Save x [data] out (Some e)])
     \<or> (\<exists>data v. rT = Inr True \<and> py_get data ''error'' = Inr v \<and> \<not> truthy v \<and>
           tevs = [c (Inr x), Start x None, Extract x url (Inr data),
                   Save x [data] out None, Print (MsgSavedSingle out)]))"
    using single_try_paths [of E url out s "emit ?m w"] py_get_Inl
    unfolding Let_def T tevs_def fst_conv snd_conv created_emit
    by blast
  from ev hs fs' paths show ?thesis
    by (intro exI [of _ rT] exI [of _ tevs] exI [of _ hs] exI [of _ fs] exI [of _ rX]) simp
qed

section \<open>The deterministic mock\<close>

lemma mock_try_same:
  assumes "headless t = headless s" "enable_anti_detection t = enable_anti_detection s"
  shows "(let M = mock_env c st ex sv bt sp fl inp;
             a = scrape_single_try M url out s w; b = scrape_single_try M url out t v in
          fst a = fst b \<and>
          writes (new_events w (snd (snd a))) = writes (new_events v (snd (snd b))) \<and>
          extractions (new_events w (snd (snd a))) = extractions (new_events v (snd (snd b))))"
  using assms
  by (simp add: scrape_single_try_def op_defs new_events_def Let_def mock_env_def
      split: sum.split option.split)

lemma mock_try_self:
  "(let M = mock_env c st ex sv bt sp fl inp; a = scrape_single_try M url out s w in
      headless (fst (snd a)) = headless s \<and>
      enable_anti_detection (fst (snd a)) = enable_anti_detection s \<and>
      extractor (fst (snd a)) =
        (case c (headless s) (enable_anti_detection s) of
           Some e \<Rightarrow> extractor s | None \<Rightarrow> Some (created w)))"
  by (simp add: scrape_single_try_def op_defs new_events_def Let_def mock_env_def
      split: sum.split option.split)

lemma mock_frame:
  "fst (finally_stop (mock_env c st ex sv bt sp fl inp) (except_Exception msg (rT, sT, wT))) =
     (let rX = (case rT of Inl e \<Rightarrow> if is_Exception e then Inr False else Inl e
                         | Inr b \<Rightarrow> Inr b) in
      if extractor sT = None then rX else (case sp of None \<Rightarrow> rX | Some e \<Rightarrow> Inl e))"
  by (simp add: finally_stop_def except_Exception_def stop_def mock_env_def Let_def
      split: sum.split option.split)


lemma framed_readers:
  assumes call: "finally_stop E (except_Exception msg (rT, sT, wT)) = (r, s', w')"
    and pre: "log wT = log w @ tevs"
  shows "writes (new_events w w') = writes tevs"
    and "extractions (new_events w w') = extractions tevs"
    and "s' = sT"
proof -
  from framed [OF call pre] obtain hs fs rX where
    s': "s' = sT" and ev: "new_events w w' = tevs @ hs @ fs"
    and hs: "case rT of
          Inr b \<Rightarrow> rX = rT \<and> hs = []
        | Inl e \<Rightarrow> if is_Exception e then rX = Inr False \<and> hs = [Print (msg e)]
                   else rX = rT \<and> hs = []"
    and fs: "case extractor sT of
          None \<Rightarrow> fs = [] \<and> r = rX
        | Some x \<Rightarrow> (\<exists>res. fs = [Stop x res] \<and>
            (case res of None \<Rightarrow> r = rX | Some e \<Rightarrow> r = Inl e))"
    by blast
  have "hs = [] \<or> (\<exists>m. hs = [Print m])"
    using hs by (cases rT) (auto split: if_splits)
  then have h: "writes hs = []" "extractions hs = []"
    by auto
  have "fs = [] \<or> (\<exists>x res. fs = [Stop x res])"
    using fs by (cases "extractor sT") auto
  then have f: "writes fs = []" "extractions fs = []"
    by auto
  show "writes (new_events w w') = writes tevs" "extractions (new_events w w') = extractions tevs"
    using ev h f by simp_all
  show "s' = sT" by (rule s')
qed

section \<open>The batch method as the spec has it\<close>

text \<open>A trace of extractions on the session \<open>x\<close>, and what is read from it.\<close>

lemma extract_events_readers [simp]:
  "extractions (map (\<lambda>(u, r). Extract x u r) ps) = ps"
  "writes (map (\<lambda>(u, r). Extract x u r) ps) = []"
  "stop_calls (map (\<lambda>(u, r). Extract x u r) ps) = []"
  "constructed (map (\<lambda>(u, r). Extract x u r) ps) = []"
  "start_calls (map (\<lambda>(u, r). Extract x u r) ps) = []"
  "\<not> construction_raised (map (\<lambda>(u, r). Extract x u r) ps)"
  "\<not> start_raised (map (\<lambda>(u, r). Extract x u r) ps)"
  "\<not> write_raised (map (\<lambda>(u, r). Extract x u r) ps)"
  "\<not> stop_raised (map (\<lambda>(u, r). Extract x u r) ps)"
  by (induction ps) auto

lemma raised_extract_events:
  "(u, Inl e) \<in> set ps \<Longrightarrow> e \<in> set (raised (map (\<lambda>(u, r). Extract x u r) ps))"
proof (induction ps)
  case Nil
  then show ?case by simp
next
  case (Cons p ps)
  obtain u' r' where p: "p = (u', r')" by (cases p)
  show ?case
    using Cons p by (cases r') auto
qed

lemma extract_each_trace:
  assumes "extract_each E x urls acc w = (res, w1)"
  shows "\<exists>ps. log w1 = log w @ map (\<lambda>(u, r). Extract x u r) ps \<and>
     (case res of
        Inr rs \<Rightarrow> map fst ps = urls \<and> rs = acc @ map record_for ps
      | Inl e \<Rightarrow> \<not> is_Exception e \<and> (\<exists>u. (u, Inl e) \<in> set ps))"
  using assms
proof (induction urls arbitrary: acc w)
  case Nil
  then have "log w1 = log w @ map (\<lambda>(u, r). Extract x u r) [] \<and>
     (case res of
        Inr rs \<Rightarrow> map fst ([] :: (string \<times> (pyexc + pyval)) list) = [] \<and> rs = acc @ map record_for []
      | Inl e \<Rightarrow> \<not> is_Exception e \<and> (\<exists>u. (u, Inl e) \<in> set []))"
    by auto
  then show ?case by blast
next
  case (Cons url urls)
  let ?r = "extract_res E (log w) x url"
  let ?w = "emit (Extract x url ?r) w"
  show ?case
  proof (cases "\<exists>e. ?r = Inl e \<and> \<not> is_Exception e")
    case True
    then obtain e where e: "?r = Inl e" "\<not> is_Exception e" by blast
    with Cons.prems have "res = Inl e" "w1 = ?w"
      by (simp_all add: extract_youtube_data_def Let_def)
    then have "log w1 = log w @ map (\<lambda>(u, r). Extract x u r) [(url, Inl e)] \<and>
     (case res of
        Inr rs \<Rightarrow> map fst [(url, Inl e :: pyexc + pyval)] = url # urls \<and>
           rs = acc @ map record_for [(url, Inl e)]
      | Inl e' \<Rightarrow> \<not> is_Exception e' \<and> (\<exists>u. (u, Inl e') \<in> set [(url, Inl e :: pyexc + pyval)]))"
      using e by simp
    then show ?thesis by blast
  next
    case False
    then have "extract_each E x urls (acc @ [record_for (url, ?r)]) ?w = (res, w1)"
      using Cons.prems by (cases ?r) (auto simp: extract_youtube_data_def Let_def)
    from Cons.IH [OF this] obtain ps where
      ps: "log w1 = log ?w @ map (\<lambda>(u, r). Extract x u r) ps"
        "case res of
          Inr rs \<Rightarrow> map fst ps = urls \<and> rs = (acc @ [record_for (url, ?r)]) @ map record_for ps
        | Inl e \<Rightarrow> \<not> is_Exception e \<and> (\<exists>u. (u, Inl e) \<in> set ps)"
      by blast
    have "log w1 = log w @ map (\<lambda>(u, r). Extract x u r) ((url, ?r) # ps) \<and>
     (case res of
        Inr rs \<Rightarrow> map fst ((url, ?r) # ps) = url # urls \<and>
           rs = acc @ map record_for ((url, ?r) # ps)
      | Inl e \<Rightarrow> \<not> is_Exception e \<and> (\<exists>u. (u, Inl e) \<in> set ((url, ?r) # ps)))"
      using ps by (cases res) auto
    then show ?thesis by blast
  qed
qed

lemma spec_batch_trace:
  assumes "extract_and_save_spec E x urls out w = (rB, wB)"
  shows "\<exists>ps.
      (\<exists>e u. rB = Some e \<and> \<not> is_Exception e \<and> (u, Inl e) \<in> set ps \<and>
             log wB = log w @ map (\<lambda>(u, r). Extract x u r) ps)
    \<or> (map fst ps = urls \<and>
        log wB = log w @ map (\<lambda>(u, r). Extract x u r) ps @ [Save x (map record_for ps) out rB])"
proof -
  obtain res w1 where X: "extract_each E x urls [] w = (res, w1)"
    by (cases "extract_each E x urls [] w")
  from extract_each_trace [OF X] obtain ps where
    ps: "log w1 = log w @ map (\<lambda>(u, r). Extract x u r) ps"
      "case res of
          Inr rs \<Rightarrow> map fst ps = urls \<and> rs = [] @ map record_for ps
        | Inl e \<Rightarrow> \<not> is_Exception e \<and> (\<exists>u. (u, Inl e) \<in> set ps)"
    by blast
  show ?thesis
  proof (cases res)
    case (Inl e)
    with assms X ps show ?thesis
      by (auto simp: extract_and_save_spec_def)
  next
    case (Inr rs)
    with assms X ps show ?thesis
      by (auto simp: extract_and_save_spec_def save_clean_final_output_def Let_def)
  qed
qed


lemma error_record_error_bearing [simp]: "error_bearing (error_record url e)"
  by (simp add: error_bearing_def error_record_def)

text \<open>
  The whole of a call of \<^verbatim>\<open>scrape_many\<close>: the events of the \<^verbatim>\<open>try\<close> block, of the handler
  and of the cleanup; \<open>ps\<close> are the extractions, a Target with what its extraction returned
  or raised.
\<close>

lemma scrape_many_parts:
  assumes "scrape_many E urls out s w = (r, s', w')"
  shows "\<exists>rT tevs hs fs rX.
    new_events w w' = Print (MsgScrapingMany (length urls)) # tevs @ hs @ fs \<and>
    (let x = created w; c = Construct (headless s) (enable_anti_detection s) in
       (\<exists>e. rT = Inl e \<and> tevs = [c (Inl e)])
     \<or> (\<exists>e. rT = Inl e \<and> tevs = [c (Inr x), Start x (Some e)])
     \<or> (\<exists>e u ps. rT = Inl e \<and> \<not> is_Exception e \<and> (u, Inl e) \<in> set ps \<and>
           tevs = [c (Inr x), Start x None] @ map (\<lambda>(u, r). Extract x u r) ps)
     \<or> (\<exists>e ps. rT = Inl e \<and> map fst ps = urls \<and>
           tevs = [c (Inr x), Start x None] @ map (\<lambda>(u, r). Extract x u r) ps @
                  [Save x (map record_for ps) out (Some e)])
     \<or> (\<exists>ps. rT = Inr True \<and> map fst ps = urls \<and>
           tevs = [c (Inr x), Start x None] @ map (\<lambda>(u, r). Extract x u r) ps @
                  [Save x (map record_for ps) out None,
                   Print (MsgSavedMany (length urls) out)])) \<and>
    (case rT of
       Inr b \<Rightarrow> rX = rT \<and> hs = []
     | Inl e \<Rightarrow> if is_Exception e then rX = Inr False \<and> hs = [Print (MsgErrorUrls e)]
                else rX = rT \<and> hs = []) \<and>
    (fs = [] \<and> r = rX \<or> (\<exists>y. fs = [Stop y None] \<and> r = rX) \<or>
     (\<exists>y e. fs = [Stop y (Some e)] \<and> r = Inl e))"
proof -
  let ?m = "Print (MsgScrapingMany (length urls))"
  let ?c = "Construct (headless s) (enable_anti_detection s)"
  let ?x = "created w"
  obtain rT sT wT where
    T: "scrape_multiple_try extract_and_save_spec E urls out s (emit ?m w) = (rT, sT, wT)"
    by (cases "scrape_multiple_try extract_and_save_spec E urls out s (emit ?m w)")
  have "\<exists>tevs. log wT = log w @ (?m # tevs) \<and>
      ((\<exists>e. rT = Inl e \<and> tevs = [?c (Inl e)])
     \<or> (\<exists>e. rT = Inl e \<and> tevs = [?c (Inr ?x), Start ?x (Some e)])
     \<or> (\<exists>e u ps. rT = Inl e \<and> \<not> is_Exception e \<and> (u, Inl e) \<in> set ps \<and>
           tevs = [?c (Inr ?x), Start ?x None] @ map (\<lambda>(u, r). Extract ?x u r) ps)
     \<or> (\<exists>e ps. rT = Inl e \<and> map fst ps = urls \<and>
           tevs = [?c (Inr ?x), Start ?x None] @ map (\<lambda>(u, r). Extract ?x u r) ps @
                  [Save ?x (map record_for ps) out (Some e)])
     \<or> (\<exists>ps. rT = Inr True \<and> map fst ps = urls \<and>
           tevs = [?c (Inr ?x), Start ?x None] @ map (\<lambda>(u, r). Extract ?x u r) ps @
                  [Save ?x (map record_for ps) out None,
                   Print (MsgSavedMany (length urls) out)]))"
    using multiple_try_trace [OF T]
  proof (elim disjE exE conjE)
    fix w2 rB wB
    assume w2: "log w2 = log (emit ?m w) @
        [Construct (headless s) (enable_anti_detection s) (Inr (created (emit ?m w))),
         Start (created (emit ?m w)) None]"
      and b: "extract_and_save_spec E (created (emit ?m w)) urls out w2 = (rB, wB)"
      and rB: "case rB of
             Some e \<Rightarrow> rT = Inl e \<and> log wT = log wB
           | None \<Rightarrow> rT = Inr True \<and>
               log wT = log wB @ [Print (MsgSavedMany (length urls) out)]"
    from spec_batch_trace [OF b] obtain ps where
      "(\<exists>e u. rB = Some e \<and> \<not> is_Exception e \<and> (u, Inl e) \<in> set ps \<and>
             log wB = log w2 @ map (\<lambda>(u, r). Extract (created (emit ?m w)) u r) ps)
    \<or> (map fst ps = urls \<and>
        log wB = log w2 @ map (\<lambda>(u, r). Extract (created (emit ?m w)) u r) ps @
           [Save (created (emit ?m w)) (map record_for ps) out rB])"
      by blast
    then show ?thesis
    proof (elim disjE exE conjE)
      fix e u
      assume "rB = Some e" "\<not> is_Exception e" "(u, Inl e) \<in> set ps"
        "log wB = log w2 @ map (\<lambda>(u, r). Extract (created (emit ?m w)) u r) ps"
      with w2 rB have "log wT = log w @ (?m # [?c (Inr ?x), Start ?x None] @
            map (\<lambda>(u, r). Extract ?x u r) ps) \<and> rT = Inl e"
        by simp
      with \<open>\<not> is_Exception e\<close> \<open>(u, Inl e) \<in> set ps\<close> show ?thesis
        by blast
    next
      assume ps: "map fst ps = urls"
        "log wB = log w2 @ map (\<lambda>(u, r). Extract (created (emit ?m w)) u r) ps @
           [Save (created (emit ?m w)) (map record_for ps) out rB]"
      show ?thesis
      proof (cases rB)
        case None
        with w2 rB ps have "log wT = log w @ (?m # [?c (Inr ?x), Start ?x None] @
            map (\<lambda>(u, r). Extract ?x u r) ps @
              [Save ?x (map record_for ps) out None, Print (MsgSavedMany (length urls) out)])
            \<and> rT = Inr True"
          by simp
        with ps(1) show ?thesis
          by blast
      next
        case (Some e)
        with w2 rB ps have "log wT = log w @ (?m # [?c (Inr ?x), Start ?x None] @
            map (\<lambda>(u, r). Extract ?x u r) ps @ [Save ?x (map record_for ps) out (Some e)])
            \<and> rT = Inl e"
          by simp
        with ps(1) show ?thesis
          by blast
      qed
    qed
  qed auto
  then obtain tevs where pre: "log wT = log w @ (?m # tevs)"
    and paths: "(\<exists>e. rT = Inl e \<and> tevs = [?c (Inl e)])
     \<or> (\<exists>e. rT = Inl e \<and> tevs = [?c (Inr ?x), Start ?x (Some e)])
     \<or> (\<exists>e u ps. rT = Inl e \<and> \<not> is_Exception e \<and> (u, Inl e) \<in> set ps \<and>
           tevs = [?c (Inr ?x), Start ?x None] @ map (\<lambda>(u, r). Extract ?x u r) ps)
     \<or> (\<exists>e ps. rT = Inl e \<and> map fst ps = urls \<and>
           tevs = [?c (Inr ?x), Start ?x None] @ map (\<lambda>(u, r). Extract ?x u r) ps @
                  [Save ?x (map record_for ps) out (Some e)])
     \<or> (\<exists>ps. rT = Inr True \<and> map fst ps = urls \<and>
           tevs = [?c (Inr ?x), Start ?x None] @ map (\<lambda>(u, r). Extract ?x u r) ps @
                  [Save ?x (map record_for ps) out None,
                   Print (MsgSavedMany (length urls) out)])"
    by blast
  from assms T have call:
    "finally_stop E (except_Exception MsgErrorUrls (rT, sT, wT)) = (r, s', w')"
    by (simp add: scrape_many_def scrape_multiple_urls_with_def)
  from framed [OF call pre] obtain hs fs rX where
    ev: "new_events w w' = (?m # tevs) @ hs @ fs"
    and hs: "case rT of
          Inr b \<Rightarrow> rX = rT \<and> hs = []
        | Inl e \<Rightarrow> if is_Exception e then rX = Inr False \<and> hs = [Print (MsgErrorUrls e)]
                   else rX = rT \<and> hs = []"
    and fs: "case extractor sT of
          None \<Rightarrow> fs = [] \<and> r = rX
        | Some x \<Rightarrow> (\<exists>res. fs = [Stop x res] \<and>
            (case res of None \<Rightarrow> r = rX | Some e \<Rightarrow> r = Inl e))"
    by blast
  have fs': "fs = [] \<and> r = rX \<or> (\<exists>y. fs = [Stop y None] \<and> r = rX) \<or>
     (\<exists>y e. fs = [Stop y (Some e)] \<and> r = Inl e)"
    using fs by (cases "extractor sT") (auto split: option.splits)
  from ev hs fs' paths show ?thesis
    unfolding Let_def
    by (intro exI [of _ rT] exI [of _ tevs] exI [of _ hs] exI [of _ fs] exI [of _ rX]) simp
qed

lemma handler_readers:
  assumes "case rT of
       Inr b \<Rightarrow> rX = rT \<and> hs = []
     | Inl e \<Rightarrow> if is_Exception e then rX = Inr False \<and> hs = [Print (msg e)]
                else rX = rT \<and> hs = []"
  shows "writes hs = []" "extractions hs = []" "\<not> construction_raised hs"
    "\<not> start_raised hs" "\<not> write_raised hs" "\<not> stop_raised hs" "raised hs = []"
    "stop_calls hs = []" "constructed hs = []" "start_calls hs = []"
proof -
  have "hs = [] \<or> (\<exists>m. hs = [Print m])"
    using assms by (cases rT) (auto split: if_splits)
  then show "writes hs = []" "extractions hs = []" "\<not> construction_raised hs"
    "\<not> start_raised hs" "\<not> write_raised hs" "\<not> stop_raised hs" "raised hs = []"
    "stop_calls hs = []" "constructed hs = []" "start_calls hs = []"
    by auto
qed

lemma cleanup_readers:
  assumes "fs = [] \<and> r = rX \<or> (\<exists>y. fs = [Stop y None] \<and> r = rX) \<or>
     (\<exists>y e. fs = [Stop y (Some e)] \<and> r = Inl e)"
  shows "writes fs = []" "extractions fs = []" "\<not> construction_raised fs"
    "\<not> start_raised fs" "\<not> write_raised fs" "constructed fs = []" "start_calls fs = []"
  using assms by auto

text \<open>The five ways through a call of \<^verbatim>\<open>scrape_many\<close>, as its trace shows them.\<close>

lemma scrape_many_cases:
  assumes "scrape_many E urls out s w = (r, s', w')" and "evs = new_events w w'"
  shows "(construction_raised evs \<and> \<not> start_raised evs \<and> \<not> write_raised evs \<and>
           writes evs = [] \<and> r \<noteq> Inr True)
    \<or> (\<not> construction_raised evs \<and> start_raised evs \<and> \<not> write_raised evs \<and>
           writes evs = [] \<and> r \<noteq> Inr True)
    \<or> (\<not> construction_raised evs \<and> \<not> start_raised evs \<and> \<not> write_raised evs \<and>
           writes evs = [] \<and> \<not> list_all is_Exception (raised evs) \<and>
           r \<noteq> Inr True \<and> r \<noteq> Inr False)
    \<or> (\<exists>e. \<not> construction_raised evs \<and> \<not> start_raised evs \<and> write_raised evs \<and>
           map fst (extractions evs) = urls \<and>
           writes evs = [(map record_for (extractions evs), out, Some e)] \<and> r \<noteq> Inr True)
    \<or> (\<not> construction_raised evs \<and> \<not> start_raised evs \<and> \<not> write_raised evs \<and>
           map fst (extractions evs) = urls \<and>
           writes evs = [(map record_for (extractions evs), out, None)] \<and>
           (if stop_raised evs then r \<noteq> Inr True \<and> r \<noteq> Inr False else r = Inr True))"
  using scrape_many_parts [OF assms(1)]
proof (elim exE conjE)
  fix rT tevs hs fs rX
  assume ev0: "new_events w w' = Print (MsgScrapingMany (length urls)) # tevs @ hs @ fs"
    and paths0: "(let x = created w; c = Construct (headless s) (enable_anti_detection s) in
       (\<exists>e. rT = Inl e \<and> tevs = [c (Inl e)])
     \<or> (\<exists>e. rT = Inl e \<and> tevs = [c (Inr x), Start x (Some e)])
     \<or> (\<exists>e u ps. rT = Inl e \<and> \<not> is_Exception e \<and> (u, Inl e) \<in> set ps \<and>
           tevs = [c (Inr x), Start x None] @ map (\<lambda>(u, r). Extract x u r) ps)
     \<or> (\<exists>e ps. rT = Inl e \<and> map fst ps = urls \<and>
           tevs = [c (Inr x), Start x None] @ map (\<lambda>(u, r). Extract x u r) ps @
                  [Save x (map record_for ps) out (Some e)])
     \<or> (\<exists>ps. rT = Inr True \<and> map fst ps = urls \<and>
           tevs = [c (Inr x), Start x None] @ map (\<lambda>(u, r). Extract x u r) ps @
                  [Save x (map record_for ps) out None,
                   Print (MsgSavedMany (length urls) out)]))"
    and hs: "case rT of
       Inr b \<Rightarrow> rX = rT \<and> hs = []
     | Inl e \<Rightarrow> if is_Exception e then rX = Inr False \<and> hs = [Print (MsgErrorUrls e)]
                else rX = rT \<and> hs = []"
    and fs: "fs = [] \<and> r = rX \<or> (\<exists>y. fs = [Stop y None] \<and> r = rX) \<or>
     (\<exists>y e. fs = [Stop y (Some e)] \<and> r = Inl e)"
  note paths = paths0 [unfolded Let_def]
  from ev0 assms(2) have ev: "evs = Print (MsgScrapingMany (length urls)) # tevs @ hs @ fs"
    by simp
  note hread = handler_readers [OF hs]
  note fread = cleanup_readers [OF fs]
  have rTrue: "r = Inr True \<Longrightarrow> rT = Inr True"
    using hs fs by (cases rT) (auto split: if_splits)
  have rFalse: "r = Inr False \<Longrightarrow> rT = Inr False \<or> (\<exists>e. rT = Inl e \<and> is_Exception e)"
    using hs fs by (cases rT) (auto split: if_splits)
  from paths show ?thesis
  proof (elim disjE exE conjE)
    fix e assume *: "rT = Inl e" "tevs = [(Construct (headless s) (enable_anti_detection s)) (Inl e)]"
    have "construction_raised evs" "\<not> start_raised evs" "\<not> write_raised evs" "writes evs = []"
      by (simp_all add: ev * hread fread)
    moreover have "r \<noteq> Inr True"
      using rTrue * by auto
    ultimately show ?thesis by simp
  next
    fix e assume *: "rT = Inl e" "tevs = [(Construct (headless s) (enable_anti_detection s)) (Inr (created w)), Start (created w) (Some e)]"
    have "\<not> construction_raised evs" "start_raised evs" "\<not> write_raised evs" "writes evs = []"
      by (simp_all add: ev * hread fread)
    moreover have "r \<noteq> Inr True"
      using rTrue * by auto
    ultimately show ?thesis by simp
  next
    fix e u ps assume *: "rT = Inl e" "\<not> is_Exception e" "(u, Inl e) \<in> set ps"
      "tevs = [(Construct (headless s) (enable_anti_detection s)) (Inr (created w)), Start (created w) None] @ map (\<lambda>(u, r). Extract (created w) u r) ps"
    have "\<not> construction_raised evs" "\<not> start_raised evs" "\<not> write_raised evs" "writes evs = []"
      by (simp_all add: ev * hread fread)
    moreover have "e \<in> set (raised evs)"
      using raised_extract_events [OF *(3), of "created w"] by (simp add: ev *(4))
    then have "\<not> list_all is_Exception (raised evs)"
      using *(2) by (auto simp: list_all_iff)
    moreover have "r \<noteq> Inr True" "r \<noteq> Inr False"
      using rTrue rFalse * by auto
    ultimately show ?thesis by simp
  next
    fix e ps assume *: "rT = Inl e" "map fst ps = urls"
      "tevs = [(Construct (headless s) (enable_anti_detection s)) (Inr (created w)), Start (created w) None] @ map (\<lambda>(u, r). Extract (created w) u r) ps @
                  [Save (created w) (map record_for ps) out (Some e)]"
    have "\<not> construction_raised evs" "\<not> start_raised evs" "write_raised evs"
      "extractions evs = ps" "writes evs = [(map record_for ps, out, Some e)]"
      by (simp_all add: ev *(3) hread fread)
    moreover have "r \<noteq> Inr True"
      using rTrue * by auto
    ultimately show ?thesis using *(2) by simp
  next
    fix ps assume *: "rT = Inr True" "map fst ps = urls"
      "tevs = [(Construct (headless s) (enable_anti_detection s)) (Inr (created w)), Start (created w) None] @ map (\<lambda>(u, r). Extract (created w) u r) ps @
                  [Save (created w) (map record_for ps) out None,
                   Print (MsgSavedMany (length urls) out)]"
    have rd: "\<not> construction_raised evs" "\<not> start_raised evs" "\<not> write_raised evs"
      "extractions evs = ps" "writes evs = [(map record_for ps, out, None)]"
      "stop_raised evs = stop_raised fs"
      by (simp_all add: ev *(3) hread fread)
    from hs * have rX: "rX = Inr True" by simp
    have "if stop_raised fs then r \<noteq> Inr True \<and> r \<noteq> Inr False else r = Inr True"
      using fs rX by auto
    with rd show ?thesis using *(2) by simp
  qed
qed

lemma record_for_nth:
  assumes "i < length ps"
  shows "case ps ! i of
           (url, Inr data) \<Rightarrow> map fst ps ! i = url \<and> record_for (ps ! i) = data
         | (url, Inl e) \<Rightarrow> map fst ps ! i = url \<and> error_bearing (record_for (ps ! i))"
proof -
  obtain u res where p: "ps ! i = (u, res)" by (cases "ps ! i")
  with assms show ?thesis
    by (cases res) simp_all
qed

lemma map_fst_length: "map fst ps = urls \<Longrightarrow> length ps = length urls"
  by auto

section \<open>Runs of the program in the mock worlds\<close>

lemma world0_simps [simp]: "log world0 = []" "created world0 = 0"
  by (simp_all add: world0_def)

lemma run_no_session:
  "scrape_single_url env_no_session ''https://a'' ''out.json'' (init True True) world0 =
     (Inr False, init True True,
      \<lparr>log = [Print (MsgScrapingSingle ''https://a''),
              Construct True True (Inl (PyException ''browser not installed'')),
              Print (MsgErrorUrl (PyException ''browser not installed''))],
       created = 0\<rparr>)"
  by code_simp

lemma run_ok_a:
  "scrape_single_url env_ok ''https://a'' ''out.json'' (init True True) world0 =
     (Inr True, \<lparr>headless = True, enable_anti_detection = True, extractor = Some 0\<rparr>,
      \<lparr>log = [Print (MsgScrapingSingle ''https://a''), Construct True True (Inr 0),
              Start 0 None, Extract 0 ''https://a'' (Inr video_a),
              Save 0 [video_a] ''out.json'' None, Print (MsgSavedSingle ''out.json''),
              Stop 0 None],
       created = Suc 0\<rparr>)"
  by code_simp

section \<open>The session is stopped\<close>

text \<open>
  C1, as the code has it. The claim is that every invocation of \<^verbatim>\<open>scrape_single_url\<close> or
  \<^verbatim>\<open>scrape_multiple_urls\<close> calls \<^verbatim>\<open>stop\<close> exactly once before it returns. The cleanup is
  guarded by \<^verbatim>\<open>if self.extractor:\<close>, so this holds for the invocations in which the
  session is constructed: then \<^verbatim>\<open>stop\<close> is called exactly once, on the session this
  invocation constructed, as the last event of the call, whatever happens in between (all
  Targets succeed, an extraction fails, \<^verbatim>\<open>start\<close> raises, any other fault or interrupt);
  and a call that returns a value returns after that \<^verbatim>\<open>stop\<close> has completed.
\<close>

theorem stop_once_when_constructed:
  assumes "scrape = scrape_single_url E url out \<or> scrape = scrape_multiple_urls E urls out"
    and "scrape s w = (r, s', w')"
    and "\<not> construction_raised (new_events w w')"
  shows "constructed (new_events w w') = [created w] \<and>
         extractor s' = Some (created w) \<and>
         stop_calls (new_events w w') = [created w] \<and>
         (\<exists>res. last (new_events w w') = Stop (created w) res \<and>
                (\<forall>b. r = Inr b \<longrightarrow> res = None))"
  using assms scrape_single_url_shape [of E url out s w r s' w']
    scrape_multiple_urls_shape [of E urls out s w r s' w']
  by auto

text \<open>In the mock world where every call completes: one \<^verbatim>\<open>stop\<close>, completed, last.\<close>

theorem stop_once_when_constructed_witness:
  "\<not> construction_raised
       (new_events world0
          (snd (snd (scrape_single_url env_ok ''https://a'' ''out.json'' (init True True) world0))))
   \<and> stop_calls
       (new_events world0
          (snd (snd (scrape_single_url env_ok ''https://a'' ''out.json'' (init True True) world0))))
      = [0]
   \<and> last
       (new_events world0
          (snd (snd (scrape_single_url env_ok ''https://a'' ''out.json'' (init True True) world0))))
      = Stop 0 None"
proof -
  let ?w = "snd (snd (scrape_single_url env_ok ''https://a'' ''out.json'' (init True True) world0))"
  have ev: "new_events world0 ?w =
      [Print (MsgScrapingSingle ''https://a''), Construct True True (Inr 0),
       Start 0 None, Extract 0 ''https://a'' (Inr video_a),
       Save 0 [video_a] ''out.json'' None, Print (MsgSavedSingle ''out.json''), Stop 0 None]"
    by (simp add: run_ok_a new_events_def)
  have no: "\<not> construction_raised (new_events world0 ?w)"
    by (simp add: ev)
  from stop_once_when_constructed [OF disjI1 [OF refl] run_ok_a] no ev
  show ?thesis
    by (simp add: run_ok_a)
qed

text \<open>
  C1 as stated fails: on a fresh object, when the construction of the session raises, the
  call returns \<^verbatim>\<open>False\<close> and \<^verbatim>\<open>stop\<close> has not been called at all.
\<close>

theorem stop_never_called_counterexample:
  "fst (scrape_single_url env_no_session ''https://a'' ''out.json'' (init True True) world0)
     = Inr False
   \<and> stop_calls
       (new_events world0
          (snd (snd (scrape_single_url env_no_session ''https://a'' ''out.json''
                       (init True True) world0))))
     = []"
  by (simp add: run_no_session new_events_def)

lemma run_one_first:
  "scrape_single_url env_one_session ''https://a'' ''out.json'' (init True True) world0 =
     (Inr True, \<lparr>headless = True, enable_anti_detection = True, extractor = Some 0\<rparr>,
      \<lparr>log = [Print (MsgScrapingSingle ''https://a''), Construct True True (Inr 0),
              Start 0 None, Extract 0 ''https://a'' (Inr video_a),
              Save 0 [video_a] ''out.json'' None, Print (MsgSavedSingle ''out.json''),
              Stop 0 None],
       created = Suc 0\<rparr>)"
  by code_simp

lemma run_one_second:
  "scrape_multiple_urls env_one_session [''https://a''] ''out.json''
     \<lparr>headless = True, enable_anti_detection = True, extractor = Some 0\<rparr>
     \<lparr>log = [Print (MsgScrapingSingle ''https://a''), Construct True True (Inr 0),
              Start 0 None, Extract 0 ''https://a'' (Inr video_a),
              Save 0 [video_a] ''out.json'' None, Print (MsgSavedSingle ''out.json''),
              Stop 0 None],
       created = Suc 0\<rparr> =
     (Inr False, \<lparr>headless = True, enable_anti_detection = True, extractor = Some 0\<rparr>,
      \<lparr>log = [Print (MsgScrapingSingle ''https://a''), Construct True True (Inr 0),
              Start 0 None, Extract 0 ''https://a'' (Inr video_a),
              Save 0 [video_a] ''out.json'' None, Print (MsgSavedSingle ''out.json''),
              Stop 0 None,
              Print (MsgScrapingMany 1),
              Construct True True (Inl (PyException ''browser not installed'')),
              Print (MsgErrorUrls (PyException ''browser not installed'')),
              Stop 0 None],
       created = Suc 0\<rparr>)"
  by code_simp

text \<open>
  C10. When the construction of the extractor raises inside \<^verbatim>\<open>scrape_single_url\<close> or
  \<^verbatim>\<open>scrape_multiple_urls\<close>, the cleanup calls \<^verbatim>\<open>stop\<close> on whatever \<^verbatim>\<open>self.extractor\<close> held
  when the call began, and leaves the object as it was: on a fresh object (the field is
  \<^verbatim>\<open>None\<close>) \<^verbatim>\<open>stop\<close> is not called; on an object that holds a session, \<^verbatim>\<open>stop\<close> is called
  once, on that stale session. A call that constructs a session leaves it in the field, so
  an object used before holds the session of its earlier call.
\<close>

theorem construction_raises_stops_stale:
  assumes "scrape = scrape_single_url E url out \<or> scrape = scrape_multiple_urls E urls out"
    and "scrape s w = (r, s', w')"
  shows "(construction_raised (new_events w w') \<longrightarrow>
            stop_calls (new_events w w') =
              (case extractor s of None \<Rightarrow> [] | Some stale \<Rightarrow> [stale]) \<and>
            s' = s)
       \<and> (\<forall>x. constructed (new_events w w') = [x] \<longrightarrow> extractor s' = Some x)
       \<and> extractor (init h a) = None"
  using assms scrape_single_url_shape [of E url out s w r s' w']
    scrape_multiple_urls_shape [of E urls out s w r s' w']
  by auto

text \<open>
  A fresh object whose construction raises: no \<^verbatim>\<open>stop\<close>. An object that has scraped one
  URL, then a batch whose construction raises: \<^verbatim>\<open>stop\<close> on session 0 of the first call.
\<close>

theorem construction_raises_stops_stale_witness:
  "stop_calls
     (new_events world0
        (snd (snd (scrape_single_url env_no_session ''https://a'' ''out.json''
                     (init True True) world0)))) = []
   \<and> stop_calls
     (new_events
        (snd (snd (scrape_single_url env_one_session ''https://a'' ''out.json''
                     (init True True) world0)))
        (snd (snd (scrape_multiple_urls env_one_session [''https://a''] ''out.json''
                     (fst (snd (scrape_single_url env_one_session ''https://a'' ''out.json''
                                  (init True True) world0)))
                     (snd (snd (scrape_single_url env_one_session ''https://a'' ''out.json''
                                  (init True True) world0))))))) = [0]"
proof -
  have r1: "construction_raised
     (new_events world0
        (snd (snd (scrape_single_url env_no_session ''https://a'' ''out.json''
                     (init True True) world0))))"
    by (simp add: run_no_session new_events_def)
  have r2: "construction_raised
     (new_events
        \<lparr>log = [Print (MsgScrapingSingle ''https://a''), Construct True True (Inr 0),
              Start 0 None, Extract 0 ''https://a'' (Inr video_a),
              Save 0 [video_a] ''out.json'' None, Print (MsgSavedSingle ''out.json''),
              Stop 0 None],
         created = Suc 0\<rparr>
        (snd (snd (scrape_multiple_urls env_one_session [''https://a''] ''out.json''
           \<lparr>headless = True, enable_anti_detection = True, extractor = Some 0\<rparr>
           \<lparr>log = [Print (MsgScrapingSingle ''https://a''), Construct True True (Inr 0),
              Start 0 None, Extract 0 ''https://a'' (Inr video_a),
              Save 0 [video_a] ''out.json'' None, Print (MsgSavedSingle ''out.json''),
              Stop 0 None],
            created = Suc 0\<rparr>))))"
    by (simp add: run_one_second new_events_def)
  from construction_raises_stops_stale [OF disjI1 [OF refl] run_no_session] r1
    construction_raises_stops_stale [OF disjI2 [OF refl] run_one_second] r2
  show ?thesis
    by (simp add: run_no_session run_one_first run_one_second)
qed

section \<open>Scraping from a file\<close>

text \<open>
  C9. For a path that does not exist, \<^verbatim>\<open>scrape_from_file\<close> returns \<^verbatim>\<open>False\<close>; it raises
  nothing, constructs and starts no session (it makes no call on a session at all) and
  leaves the object as it was. Its one effect is the line it prints, and that line is all
  that tells the call from the one on a file with no valid URL, which ends the same way.
\<close>

theorem missing_file_fails_without_session:
  assumes "file_at E (log w) file_path = None"
  shows "scrape_from_file E file_path out s w =
           (Inr False, s, emit (Print (MsgFileNotFound file_path)) w)
       \<and> session_calls (new_events w (snd (snd (scrape_from_file E file_path out s w)))) = []
       \<and> printed (new_events w (snd (snd (scrape_from_file E file_path out s w)))) =
           [MsgFileNotFound file_path]
       \<and> (\<forall>p lines. file_at E (log w) p = Some (TextFile lines) \<and> file_urls lines = [] \<longrightarrow>
             scrape_from_file E p out s w = (Inr False, s, emit (Print (MsgNoValidUrls p)) w) \<and>
             MsgNoValidUrls p \<noteq> MsgFileNotFound file_path)"
  using assms
  by (simp add: scrape_from_file_missing scrape_from_file_no_urls)

theorem missing_file_fails_without_session_witness:
  "scrape_from_file env_ok ''nope.txt'' ''out.json'' (init True True) world0 =
     (Inr False, init True True, emit (Print (MsgFileNotFound ''nope.txt'')) world0)
   \<and> scrape_from_file env_ok ''notes.txt'' ''out.json'' (init True True) world0 =
     (Inr False, init True True, emit (Print (MsgNoValidUrls ''notes.txt'')) world0)"
proof -
  have missing: "file_at env_ok (log world0) ''nope.txt'' = None"
    by code_simp
  have nfile: "file_at env_ok (log world0) ''notes.txt'' =
      Some (TextFile [[], ''   '', ''note: not a url''])"
    by code_simp
  have none: "file_urls [[], ''   '', ''note: not a url''] = []"
    by code_simp
  from missing_file_fails_without_session [OF missing, of "''out.json''" "init True True"]
    nfile none
  show ?thesis
    by blast
qed

text \<open>
  C2. For a source file none of whose lines, once trimmed, starts with \<^verbatim>\<open>http\<close> (an empty
  file is one), \<^verbatim>\<open>scrape_from_file\<close> returns \<^verbatim>\<open>False\<close> after printing that no valid URL was
  found in the file; no session is constructed or started: the call makes no call on a
  session at all.
\<close>

theorem no_valid_urls_fails_without_session:
  assumes "file_at E (log w) file_path = Some (TextFile lines)"
    and "\<forall>line \<in> set lines. \<not> startswith (strip line) ''http''"
  shows "scrape_from_file E file_path out s w =
           (Inr False, s, emit (Print (MsgNoValidUrls file_path)) w)
       \<and> constructed (new_events w (snd (snd (scrape_from_file E file_path out s w)))) = []
       \<and> \<not> construction_raised
             (new_events w (snd (snd (scrape_from_file E file_path out s w))))
       \<and> start_calls (new_events w (snd (snd (scrape_from_file E file_path out s w)))) = []
       \<and> session_calls (new_events w (snd (snd (scrape_from_file E file_path out s w)))) = []
       \<and> printed (new_events w (snd (snd (scrape_from_file E file_path out s w)))) =
           [MsgNoValidUrls file_path]"
proof -
  from assms(2) have "file_urls lines = []"
    by (simp add: file_urls_Nil_iff)
  from scrape_from_file_no_urls [OF assms(1) this] show ?thesis
    by simp
qed

text \<open>The file of notes and the empty file of the mock world.\<close>

theorem no_valid_urls_fails_without_session_witness:
  "scrape_from_file env_ok ''notes.txt'' ''out.json'' (init True True) world0 =
     (Inr False, init True True, emit (Print (MsgNoValidUrls ''notes.txt'')) world0)
   \<and> scrape_from_file env_ok ''empty.txt'' ''out.json'' (init True True) world0 =
     (Inr False, init True True, emit (Print (MsgNoValidUrls ''empty.txt'')) world0)"
proof -
  have nfile: "file_at env_ok (log world0) ''notes.txt'' =
      Some (TextFile [[], ''   '', ''note: not a url''])"
    by code_simp
  have none: "\<forall>line \<in> set [[], ''   '', ''note: not a url'']. \<not> startswith (strip line) ''http''"
    by code_simp
  have empty: "file_at env_ok (log world0) ''empty.txt'' = Some (TextFile [])"
    by code_simp
  have none': "\<forall>line \<in> set []. \<not> startswith (strip line) ''http''"
    by simp
  from no_valid_urls_fails_without_session [OF nfile none]
    no_valid_urls_fails_without_session [OF empty none']
  show ?thesis
    by blast
qed

text \<open>
  C6. The Targets \<^verbatim>\<open>scrape_from_file\<close> takes from the lines of a file are the trimmed lines
  that start with \<^verbatim>\<open>http\<close>, each of them, in the order of the file and as often as it
  stands there: the filter of the trimmed lines. A Target has no whitespace at either end.
  The lines that are dropped raise nothing and leave no trace: when a Target remains, the
  call is \<^verbatim>\<open>scrape_multiple_urls\<close> on exactly these Targets.
\<close>

theorem file_targets_are_trimmed_http_lines:
  "file_urls lines = filter (\<lambda>t. startswith t ''http'') (map strip lines)
   \<and> (\<forall>t \<in> set (file_urls lines). \<not> is_space (hd t) \<and> \<not> is_space (last t))
   \<and> (file_at E (log w) file_path = Some (TextFile lines) \<and> file_urls lines \<noteq> [] \<longrightarrow>
        scrape_from_file E file_path out s w =
          except_Exception MsgErrorReadingFile
            (scrape_multiple_urls E (filter (\<lambda>t. startswith t ''http'') (map strip lines)) out s
               (emit (Print (MsgFound (length (file_urls lines)) file_path)) w)))"
proof (intro conjI)
  show eq: "file_urls lines = filter (\<lambda>t. startswith t ''http'') (map strip lines)"
    by (rule file_urls_filter)
  show "\<forall>t \<in> set (file_urls lines). \<not> is_space (hd t) \<and> \<not> is_space (last t)"
  proof
    fix t
    assume "t \<in> set (file_urls lines)"
    then obtain line where "t = strip line" "startswith t ''http''"
      by (auto simp: eq)
    then have "strip line \<noteq> []"
      by auto
    with \<open>t = strip line\<close> show "\<not> is_space (hd t) \<and> \<not> is_space (last t)"
      by (simp add: strip_trimmed)
  qed
  show "file_at E (log w) file_path = Some (TextFile lines) \<and> file_urls lines \<noteq> [] \<longrightarrow>
        scrape_from_file E file_path out s w =
          except_Exception MsgErrorReadingFile
            (scrape_multiple_urls E (filter (\<lambda>t. startswith t ''http'') (map strip lines)) out s
               (emit (Print (MsgFound (length (file_urls lines)) file_path)) w))"
    using scrape_from_file_urls [of E w file_path lines out s] by (simp add: eq)
qed

text \<open>Blank lines and notes are dropped, order and the repeated Target are kept.\<close>

theorem file_targets_are_trimmed_http_lines_witness:
  "filter (\<lambda>t. startswith t ''http'')
     (map strip [''  https://a  '', [], ''note: not a url'', ''https://b'', ''https://a''])
   = [''https://a'', ''https://b'', ''https://a'']"
proof -
  have "file_urls [''  https://a  '', [], ''note: not a url'', ''https://b'', ''https://a'']
      = [''https://a'', ''https://b'', ''https://a'']"
    by code_simp
  with file_targets_are_trimmed_http_lines
    [of "[''  https://a  '', [], ''note: not a url'', ''https://b'', ''https://a'']"]
  show ?thesis
    by simp
qed

section \<open>The exit status\<close>

lemma batch_exit_status:
  assumes "run_scraper fuel E a w = Some (sys_exit_on res)"
  shows "exit_status fuel E a w =
     Some (case fst res of
             Inr success \<Rightarrow> if success then 0 else 1
           | Inl (SystemExit c) \<Rightarrow> c
           | Inl e \<Rightarrow> 1)"
proof -
  obtain r s' w' where res: "res = (r, s', w')"
    by (cases res)
  show ?thesis
  proof (cases r)
    case (Inr success)
    with assms res show ?thesis
      by (simp add: exit_status_def main_def sys_exit_on_def)
  next
    case (Inl e)
    with assms res show ?thesis
      by (cases e) (simp_all add: exit_status_def main_def sys_exit_on_def)
  qed
qed


lemma run_start_fails:
  "fst (scrape_single_url env_start_fails ''https://a'' ''youtube_scraped_data.json''
          (init True True) world0) = Inr False"
  by code_simp

lemma run_interrupted:
  "fst (scrape_single_url env_interrupted ''https://a'' ''youtube_scraped_data.json''
          (init True True) world0) = Inl KeyboardInterrupt"
  by code_simp

lemma run_ok_url:
  "fst (scrape_single_url env_ok ''https://a'' ''youtube_scraped_data.json''
          (init True True) world0) = Inr True"
  by code_simp

lemma args_url_simps [simp]:
  "arg_interactive args_url = False" "arg_url args_url = Some ''https://a''"
  "arg_output args_url = ''youtube_scraped_data.json''"
  "arg_headless args_url = True" "arg_show_browser args_url = False"
  "arg_no_anti_detection args_url = False"
  by (simp_all add: args_url_def)



section \<open>Scraping one URL\<close>


lemma run_ok_b:
  "scrape_single_url env_ok ''https://b'' ''out.json'' (init True True) world0 =
     (Inr False, \<lparr>headless = True, enable_anti_detection = True, extractor = Some 0\<rparr>,
      \<lparr>log = [Print (MsgScrapingSingle ''https://b''), Construct True True (Inr 0),
              Start 0 None, Extract 0 ''https://b'' (Inr failed_b),
              Print (MsgFailedExtract (PStr ''Video unavailable'')), Stop 0 None],
       created = Suc 0\<rparr>)"
  by code_simp



text \<open>
  C8. With a deterministic mock of the collaborators, calling \<^verbatim>\<open>scrape_single_url\<close> twice
  with the same URL and destination, the second time on the object the first call left
  (or on one as it was before it), gives the same return value, or the same exception,
  both times, the same ResultSets handed to the Output Writer with the same outcome, and
  the same extractions.
\<close>

theorem single_url_twice_same_outcome:
  assumes first: "scrape_single_url (mock_env c st ex sv bt sp fl inp) url out s w = (r1, s1, w1)"
    and obj: "t = s1 \<or> t = s"
    and second: "scrape_single_url (mock_env c st ex sv bt sp fl inp) url out t w1 = (r2, s2, w2)"
  shows "r2 = r1
       \<and> writes (new_events w1 w2) = writes (new_events w w1)
       \<and> extractions (new_events w1 w2) = extractions (new_events w w1)"
proof -
  let ?M = "mock_env c st ex sv bt sp fl inp"
  let ?m = "Print (MsgScrapingSingle url)"
  obtain rT1 sT1 wT1 where T1: "scrape_single_try ?M url out s (emit ?m w) = (rT1, sT1, wT1)"
    by (cases "scrape_single_try ?M url out s (emit ?m w)")
  obtain rT2 sT2 wT2 where T2: "scrape_single_try ?M url out t (emit ?m w1) = (rT2, sT2, wT2)"
    by (cases "scrape_single_try ?M url out t (emit ?m w1)")
  define tevs1 where "tevs1 = new_events (emit ?m w) wT1"
  define tevs2 where "tevs2 = new_events (emit ?m w1) wT2"
  have pre1: "log wT1 = log w @ (?m # tevs1)"
    using single_try_log [of ?M url out s "emit ?m w"] by (simp add: T1 tevs1_def)
  have pre2: "log wT2 = log w1 @ (?m # tevs2)"
    using single_try_log [of ?M url out t "emit ?m w1"] by (simp add: T2 tevs2_def)
  from first T1 have call1: "finally_stop ?M (except_Exception MsgErrorUrl (rT1, sT1, wT1)) = (r1, s1, w1)"
    by (simp add: scrape_single_url_def)
  from second T2 have call2: "finally_stop ?M (except_Exception MsgErrorUrl (rT2, sT2, wT2)) = (r2, s2, w2)"
    by (simp add: scrape_single_url_def)
  note f1 = framed_readers [OF call1 pre1] and f2 = framed_readers [OF call2 pre2]
  have self1: "headless sT1 = headless s" "enable_anti_detection sT1 = enable_anti_detection s"
    "extractor sT1 = (case c (headless s) (enable_anti_detection s) of
           Some e \<Rightarrow> extractor s | None \<Rightarrow> Some (created w))"
    using mock_try_self [of c st ex sv bt sp fl inp url out s "emit ?m w"]
    by (simp_all add: T1 Let_def split: option.splits)
  have flags: "headless t = headless s" "enable_anti_detection t = enable_anti_detection s"
    using obj self1 f1(3) by auto
  have self2: "extractor sT2 = (case c (headless s) (enable_anti_detection s) of
           Some e \<Rightarrow> extractor t | None \<Rightarrow> Some (created w1))"
    using mock_try_self [of c st ex sv bt sp fl inp url out t "emit ?m w1"] flags
    by (simp add: T2 Let_def split: option.splits)
  have same: "rT2 = rT1" "writes tevs2 = writes tevs1" "extractions tevs2 = extractions tevs1"
    using mock_try_same [OF flags, of c st ex sv bt sp fl inp url out "emit ?m w" "emit ?m w1"]
    by (simp_all add: T1 T2 Let_def tevs1_def tevs2_def)
  have none: "extractor sT2 = None \<longleftrightarrow> extractor sT1 = None"
    using self1(3) self2 obj f1(3)
    by (cases "c (headless s) (enable_anti_detection s)") auto
  have "r1 = fst (finally_stop ?M (except_Exception MsgErrorUrl (rT1, sT1, wT1)))"
    by (simp add: call1)
  moreover have "r2 = fst (finally_stop ?M (except_Exception MsgErrorUrl (rT2, sT2, wT2)))"
    by (simp add: call2)
  ultimately have "r2 = r1"
    using none same(1) by (simp add: mock_frame)
  then show ?thesis
    using f1(1,2) f2(1,2) same(2,3) by simp
qed

text \<open>\<^verbatim>\<open>https://b\<close> twice on one object in the mock world: \<^verbatim>\<open>False\<close> both times.\<close>

theorem single_url_twice_same_outcome_witness:
  "fst (scrape_single_url env_ok ''https://b'' ''out.json''
          (fst (snd (scrape_single_url env_ok ''https://b'' ''out.json'' (init True True) world0)))
          (snd (snd (scrape_single_url env_ok ''https://b'' ''out.json'' (init True True) world0))))
   = Inr False"
proof -
  define R1 where "R1 = scrape_single_url env_ok ''https://b'' ''out.json'' (init True True) world0"
  define R2 where
    "R2 = scrape_single_url env_ok ''https://b'' ''out.json'' (fst (snd R1)) (snd (snd R1))"
  have first: "scrape_single_url
      (mock_env (\<lambda>h a. None) None extract_ab (\<lambda>rs out. None) (\<lambda>urls out. None) None
              files_ab (\<lambda>p. Inl (PyException ''EOFError'')))
      ''https://b'' ''out.json'' (init True True) world0 = (fst R1, fst (snd R1), snd (snd R1))"
    by (simp add: R1_def env_ok_def)
  have second: "scrape_single_url
      (mock_env (\<lambda>h a. None) None extract_ab (\<lambda>rs out. None) (\<lambda>urls out. None) None
              files_ab (\<lambda>p. Inl (PyException ''EOFError'')))
      ''https://b'' ''out.json'' (fst (snd R1)) (snd (snd R1)) =
      (fst R2, fst (snd R2), snd (snd R2))"
    by (simp add: R2_def env_ok_def)
  from single_url_twice_same_outcome [OF first disjI1 [OF refl] second]
  have "fst R2 = fst R1"
    by simp
  then show ?thesis
    by (simp add: R1_def R2_def run_ok_b)
qed

section \<open>Scraping a batch, with the batch method as the spec has it\<close>

text \<open>
  C4. A batch of \<^verbatim>\<open>scrape_many\<close> that reaches the Output Writer (every batch that returns
  \<^verbatim>\<open>True\<close> does) hands it, in one call, a ResultSet with exactly one Record for each
  Target: as many Records as Targets, the extractions were made on the Targets in their
  order, one each, and the Records are the Records of these extractions in that order,
  whether an extraction returned a record or failed.
\<close>

theorem batch_result_set_one_record_per_target:
  assumes "scrape_many E urls out s w = (r, s', w')" and "evs = new_events w w'"
  shows "(r = Inr True \<longrightarrow> writes evs \<noteq> [])
       \<and> length (writes evs) \<le> 1
       \<and> (\<forall>(rs, dest, res) \<in> set (writes evs).
             dest = out \<and> length rs = length urls \<and>
             map fst (extractions evs) = urls \<and>
             rs = map record_for (extractions evs))"
  using scrape_many_cases [OF assms]
proof (elim disjE exE conjE)
  fix e
  assume "map fst (extractions evs) = urls"
    "writes evs = [(map record_for (extractions evs), out, Some e)]" "r \<noteq> Inr True"
  then show ?thesis
    using map_fst_length [of "extractions evs" urls] by simp
next
  assume "map fst (extractions evs) = urls"
    "writes evs = [(map record_for (extractions evs), out, None)]"
  then show ?thesis
    using map_fst_length [of "extractions evs" urls] by simp
qed simp_all

lemma run_many_acb:
  "scrape_many env_ok [''https://a'', ''https://c'', ''https://b''] ''out.json''
     (init True True) world0 =
     (Inr True, \<lparr>headless = True, enable_anti_detection = True, extractor = Some 0\<rparr>,
      \<lparr>log = [Print (MsgScrapingMany 3), Construct True True (Inr 0), Start 0 None,
              Extract 0 ''https://a'' (Inr video_a),
              Extract 0 ''https://c'' (Inl (PyException ''TimeoutError'')),
              Extract 0 ''https://b'' (Inr failed_b),
              Save 0 [video_a, error_record ''https://c'' (PyException ''TimeoutError''), failed_b]
                ''out.json'' None,
              Print (MsgSavedMany 3 ''out.json''), Stop 0 None],
       created = Suc 0\<rparr>)"
  by code_simp

text \<open>
  Three Targets in the mock world, the second of which makes the extraction raise: three
  Records, in the order of the Targets.
\<close>

theorem batch_result_set_one_record_per_target_witness:
  "fst (scrape_many env_ok [''https://a'', ''https://c'', ''https://b''] ''out.json''
          (init True True) world0) = Inr True
   \<and> writes (new_events world0
        (snd (snd (scrape_many env_ok [''https://a'', ''https://c'', ''https://b''] ''out.json''
                     (init True True) world0))))
     = [([video_a, error_record ''https://c'' (PyException ''TimeoutError''), failed_b],
         ''out.json'', None)]
   \<and> length [video_a, error_record ''https://c'' (PyException ''TimeoutError''), failed_b]
     = length [''https://a'', ''https://c'', ''https://b'']"
proof -
  let ?evs = "[Print (MsgScrapingMany 3), Construct True True (Inr 0), Start 0 None,
              Extract 0 ''https://a'' (Inr video_a),
              Extract 0 ''https://c'' (Inl (PyException ''TimeoutError'')),
              Extract 0 ''https://b'' (Inr failed_b),
              Save 0 [video_a, error_record ''https://c'' (PyException ''TimeoutError''), failed_b]
                ''out.json'' None,
              Print (MsgSavedMany 3 ''out.json''), Stop 0 None]"
  have ev: "?evs = new_events world0 \<lparr>log = ?evs, created = Suc 0\<rparr>"
    by (simp add: new_events_def)
  have w: "writes ?evs =
      [([video_a, error_record ''https://c'' (PyException ''TimeoutError''), failed_b],
         ''out.json'', None)]"
    by simp
  from batch_result_set_one_record_per_target [OF run_many_acb ev] w
  have "length [video_a, error_record ''https://c'' (PyException ''TimeoutError''), failed_b]
     = length [''https://a'', ''https://c'', ''https://b'']"
    by simp
  then show ?thesis
    using w by (simp add: run_many_acb new_events_def)
qed



end
